theory Spec2Isabelle
  imports Main "HOL-Library.AList" "HOL-Library.Sublist" "HOL-Library.Multiset"
begin

section \<open>Data model (shared/schema.ts)\<close>

text \<open>
  Identifiers and text are JavaScript strings: sequences of UTF-16 code units. They are
  modelled as \<open>string\<close>, a \<open>char\<close> standing for one code unit below 256 (ASCII and the
  Latin-1 supplement, \<open>U+0000\<close> to \<open>U+00FF\<close>); text with a code unit beyond that range is
  outside the model. A nullable column (\<open>recipientId\<close>, \<open>groupId\<close>) is a \<open>string option\<close>,
  \<open>None\<close> standing for \<open>null\<close>/\<open>undefined\<close>. \<open>createdAt\<close> is a \<open>Date\<close>; only \<open>getTime()\<close> is
  ever read from it, so it is modelled by that integer (milliseconds since the epoch).
\<close>

record user =
  user_id :: string
  username :: string
  passwordHash :: string

record "group" =
  group_id :: string
  group_name :: string
  createdBy :: string
  group_createdAt :: int

record message =
  msg_id :: string
  senderId :: string
  recipientId :: "string option"
  groupId :: "string option"
  content :: string
  createdAt :: int

text \<open>\<open>GroupWithMembers = Group & { members; memberCount }\<close>: the group's own fields are
  kept together in \<open>gwm_group\<close>.\<close>

record groupWithMembers =
  gwm_group :: "group"
  members :: "user list"
  memberCount :: nat

text \<open>\<open>MessageWithUsers = Message & { sender; recipient?; group? }\<close>.\<close>

record messageWithUsers =
  mwu_message :: message
  sender :: user
  recipient :: "user option"
  mwu_group :: "groupWithMembers option"

datatype convType = direct | groupConv

record conversation =
  conv_type :: convType
  otherUser :: "user option"
  conv_group :: "groupWithMembers option"
  lastMessage :: "message option"
  unreadCount :: nat

record insertUser =
  iu_username :: string
  password :: string

record insertGroup =
  ig_name :: string
  memberIds :: "string list"

record insertMessage =
  im_recipientId :: "string option"
  im_groupId :: "string option"
  im_content :: string

section \<open>JavaScript primitives used by the storage\<close>

text \<open>Truthiness of a string and of a nullable string: \<open>null\<close>, \<open>undefined\<close> and the
  empty string are falsy.\<close>

definition truthy :: "string option \<Rightarrow> bool" where
  "truthy x = (case x of None \<Rightarrow> False | Some s \<Rightarrow> s \<noteq> [])"

text \<open>\<open>x || null\<close> on a nullable string.\<close>

definition or_null :: "string option \<Rightarrow> string option" where
  "or_null x = (if truthy x then x else None)"

text \<open>A \<open>Set<string>\<close> iterates in insertion order and ignores a value it already
  holds: a duplicate-free list, new values at the end.\<close>

definition set_add :: "'a \<Rightarrow> 'a list \<Rightarrow> 'a list" where
  "set_add x xs = (if x \<in> set xs then xs else xs @ [x])"

definition set_delete :: "'a \<Rightarrow> 'a list \<Rightarrow> 'a list" where
  "set_delete x xs = filter (\<lambda>y. y \<noteq> x) xs"

definition new_Set :: "'a list \<Rightarrow> 'a list" where
  "new_Set xs = foldl (\<lambda>s x. set_add x s) [] xs"

text \<open>\<open>arr[0] || null\<close> on an array of objects.\<close>

definition first_or_null :: "'a list \<Rightarrow> 'a option" where
  "first_or_null xs = (case xs of [] \<Rightarrow> None | x # _ \<Rightarrow> Some x)"

text \<open>\<open>String.prototype.toLowerCase\<close>. Among the code units below 256 the letters with a
  lower-case form are \<open>A\<close> to \<open>Z\<close> and \<open>U+00C0\<close> to \<open>U+00DE\<close> without the multiplication sign
  \<open>U+00D7\<close>; each maps to the code unit 32 above it, every other code unit to itself.\<close>

definition upper_letters :: string where
  "upper_letters =
     ''ABCDEFGHIJKLMNOPQRSTUVWXYZ'' @
     [CHR 0xC0, CHR 0xC1, CHR 0xC2, CHR 0xC3, CHR 0xC4, CHR 0xC5, CHR 0xC6, CHR 0xC7,
      CHR 0xC8, CHR 0xC9, CHR 0xCA, CHR 0xCB, CHR 0xCC, CHR 0xCD, CHR 0xCE, CHR 0xCF,
      CHR 0xD0, CHR 0xD1, CHR 0xD2, CHR 0xD3, CHR 0xD4, CHR 0xD5, CHR 0xD6, CHR 0xD8,
      CHR 0xD9, CHR 0xDA, CHR 0xDB, CHR 0xDC, CHR 0xDD, CHR 0xDE]"

definition lower_letters :: string where
  "lower_letters =
     ''abcdefghijklmnopqrstuvwxyz'' @
     [CHR 0xE0, CHR 0xE1, CHR 0xE2, CHR 0xE3, CHR 0xE4, CHR 0xE5, CHR 0xE6, CHR 0xE7,
      CHR 0xE8, CHR 0xE9, CHR 0xEA, CHR 0xEB, CHR 0xEC, CHR 0xED, CHR 0xEE, CHR 0xEF,
      CHR 0xF0, CHR 0xF1, CHR 0xF2, CHR 0xF3, CHR 0xF4, CHR 0xF5, CHR 0xF6, CHR 0xF8,
      CHR 0xF9, CHR 0xFA, CHR 0xFB, CHR 0xFC, CHR 0xFD, CHR 0xFE]"

definition lower_char :: "char \<Rightarrow> char" where
  "lower_char c =
     (case map_of (zip upper_letters lower_letters) c of
        Some l \<Rightarrow> l
      | None \<Rightarrow> c)"

definition toLowerCase :: "string \<Rightarrow> string" where
  "toLowerCase s = map lower_char s"

text \<open>\<open>String.prototype.trim\<close> strips white space and line terminators at both ends.
  Below 256 these are the tab, line feed, vertical tab, form feed, carriage return, the
  space and the no-break space \<open>U+00A0\<close>.\<close>

definition is_space :: "char \<Rightarrow> bool" where
  "is_space c \<longleftrightarrow>
     c \<in> set [CHR 0x09, CHR 0x0A, CHR 0x0B, CHR 0x0C, CHR 0x0D, CHR '' '', CHR 0xA0]"

definition trim :: "string \<Rightarrow> string" where
  "trim s = rev (dropWhile is_space (rev (dropWhile is_space s)))"

text \<open>\<open>String.prototype.includes\<close>: the argument occurs at some position.\<close>

fun includes_str :: "string \<Rightarrow> string \<Rightarrow> bool" where
  "includes_str [] t = (t = [])"
| "includes_str (c # s) t = (prefix t (c # s) \<or> includes_str s t)"

section \<open>MemStorage (storage.ts)\<close>

text \<open>
  A \<open>Map<string, V>\<close> is an association list in insertion order: \<open>get\<close> is \<open>map_of\<close>,
  \<open>set\<close> is \<open>AList.update\<close> (an existing key keeps its place, a new key goes to the end),
  \<open>values()\<close> is \<open>map snd\<close>. \<open>randomUUID()\<close> and \<open>new Date()\<close> are inputs of the
  operation that calls them (\<open>newId\<close>, \<open>now\<close>), and so is the result of \<open>bcrypt.hash\<close>.
\<close>

record memStorage =
  users :: "(string \<times> user) list"
  messages :: "(string \<times> message) list"
  groups :: "(string \<times> group) list"
  groupMembers :: "(string \<times> string list) list"

definition newStorage :: memStorage where
  "newStorage = \<lparr>users = [], messages = [], groups = [], groupMembers = []\<rparr>"

definition getUser :: "memStorage \<Rightarrow> string \<Rightarrow> user option" where
  "getUser st uid = map_of (users st) uid"

definition getUserByUsername :: "memStorage \<Rightarrow> string \<Rightarrow> user option" where
  "getUserByUsername st name = find (\<lambda>u. username u = name) (map snd (users st))"

definition createUser :: "memStorage \<Rightarrow> string \<Rightarrow> string \<Rightarrow> insertUser \<Rightarrow> memStorage \<times> user" where
  "createUser st newId hash ins =
     (let u = \<lparr>user_id = newId, username = iu_username ins, passwordHash = hash\<rparr>
      in (st\<lparr>users := AList.update newId u (users st)\<rparr>, u))"

definition createGroup :: "memStorage \<Rightarrow> string \<Rightarrow> int \<Rightarrow> string \<Rightarrow> insertGroup \<Rightarrow> memStorage \<times> group" where
  "createGroup st newId now creator ins =
     (let g = \<lparr>group_id = newId, group_name = ig_name ins, createdBy = creator,
                group_createdAt = now\<rparr>;
          ms = new_Set (creator # memberIds ins)
      in (st\<lparr>groups := AList.update newId g (groups st),
              groupMembers := AList.update newId ms (groupMembers st)\<rparr>, g))"

definition getGroup :: "memStorage \<Rightarrow> string \<Rightarrow> group option" where
  "getGroup st gid = map_of (groups st) gid"

definition getGroupMembers :: "memStorage \<Rightarrow> string \<Rightarrow> user list" where
  "getGroupMembers st gid =
     (case map_of (groupMembers st) gid of
        None \<Rightarrow> []
      | Some ids \<Rightarrow> List.map_filter (getUser st) ids)"

definition getGroupWithMembers :: "memStorage \<Rightarrow> string \<Rightarrow> groupWithMembers option" where
  "getGroupWithMembers st gid =
     (case map_of (groups st) gid of
        None \<Rightarrow> None
      | Some g \<Rightarrow>
          (let ms = getGroupMembers st gid
           in Some \<lparr>gwm_group = g, members = ms, memberCount = length ms\<rparr>))"

definition getGroupsForUser :: "memStorage \<Rightarrow> string \<Rightarrow> groupWithMembers list" where
  "getGroupsForUser st uid =
     List.map_filter
       (\<lambda>(gid, ids). if uid \<in> set ids then getGroupWithMembers st gid else None)
       (groupMembers st)"

definition addGroupMember :: "memStorage \<Rightarrow> string \<Rightarrow> string \<Rightarrow> memStorage" where
  "addGroupMember st gid uid =
     (case map_of (groupMembers st) gid of
        None \<Rightarrow> st
      | Some ids \<Rightarrow> st\<lparr>groupMembers := AList.update gid (set_add uid ids) (groupMembers st)\<rparr>)"

definition removeGroupMember :: "memStorage \<Rightarrow> string \<Rightarrow> string \<Rightarrow> memStorage" where
  "removeGroupMember st gid uid =
     (case map_of (groupMembers st) gid of
        None \<Rightarrow> st
      | Some ids \<Rightarrow> st\<lparr>groupMembers := AList.update gid (set_delete uid ids) (groupMembers st)\<rparr>)"

definition createMessage :: "memStorage \<Rightarrow> string \<Rightarrow> int \<Rightarrow> string \<Rightarrow> insertMessage \<Rightarrow> memStorage \<times> message" where
  "createMessage st newId now sid ins =
     (let m = \<lparr>msg_id = newId, senderId = sid,
                recipientId = or_null (im_recipientId ins),
                groupId = or_null (im_groupId ins),
                content = im_content ins, createdAt = now\<rparr>
      in (st\<lparr>messages := AList.update newId m (messages st)\<rparr>, m))"

text \<open>\<open>Array.prototype.sort\<close> is stable; with the comparator \<open>a.t - b.t\<close> it is the stable
  sort by the key \<open>t\<close>, and with \<open>b.t - a.t\<close> the stable sort by \<open>- t\<close>.\<close>

definition getGroupMessages :: "memStorage \<Rightarrow> string \<Rightarrow> messageWithUsers list" where
  "getGroupMessages st gid =
     (let allMessages = map snd (messages st);
          groupMessages = sort_key createdAt (filter (\<lambda>msg. groupId msg = Some gid) allMessages);
          grp = getGroupWithMembers st gid
      in List.map_filter
           (\<lambda>msg. case (getUser st (senderId msg), grp) of
                     (Some s, Some g) \<Rightarrow>
                        Some \<lparr>mwu_message = msg, sender = s, recipient = None, mwu_group = Some g\<rparr>
                   | _ \<Rightarrow> None)
           groupMessages)"

definition between :: "string \<Rightarrow> string \<Rightarrow> message \<Rightarrow> bool" where
  "between u1 u2 msg \<longleftrightarrow>
     (senderId msg = u1 \<and> recipientId msg = Some u2) \<or>
     (senderId msg = u2 \<and> recipientId msg = Some u1)"

definition getMessagesBetweenUsers :: "memStorage \<Rightarrow> string \<Rightarrow> string \<Rightarrow> messageWithUsers list" where
  "getMessagesBetweenUsers st userId1 userId2 =
     (let allMessages = map snd (messages st);
          relevantMessages = sort_key createdAt (filter (between userId1 userId2) allMessages)
      in List.map_filter
           (\<lambda>msg. case (getUser st (senderId msg), Option.bind (recipientId msg) (getUser st)) of
                     (Some s, Some r) \<Rightarrow>
                        Some \<lparr>mwu_message = msg, sender = s, recipient = Some r, mwu_group = None\<rparr>
                   | _ \<Rightarrow> None)
           relevantMessages)"

text \<open>The \<open>forEach\<close> that collects the direct counterparts of \<open>userId\<close>.\<close>

definition collectOther :: "string \<Rightarrow> string list \<Rightarrow> message \<Rightarrow> string list" where
  "collectOther userId acc msg =
     (if \<not> truthy (groupId msg) then
        (if senderId msg = userId \<and> truthy (recipientId msg) then
           (case recipientId msg of Some r \<Rightarrow> set_add r acc | None \<Rightarrow> acc)
         else if recipientId msg = Some userId then set_add (senderId msg) acc
         else acc)
      else acc)"

definition otherUserIds :: "memStorage \<Rightarrow> string \<Rightarrow> string list" where
  "otherUserIds st userId = foldl (collectOther userId) [] (map snd (messages st))"

text \<open>\<open>a.lastMessage?.createdAt.getTime() || 0\<close>.\<close>

definition convTime :: "conversation \<Rightarrow> int" where
  "convTime c = (case lastMessage c of None \<Rightarrow> 0 | Some m \<Rightarrow> createdAt m)"

definition directConversations :: "memStorage \<Rightarrow> string \<Rightarrow> conversation list" where
  "directConversations st userId =
     (let allMessages = map snd (messages st)
      in List.map_filter
           (\<lambda>otherUserId.
              case getUser st otherUserId of
                None \<Rightarrow> None
              | Some ou \<Rightarrow>
                  (let msgs = sort_key (\<lambda>m. - createdAt m)
                                (filter (\<lambda>msg. \<not> truthy (groupId msg) \<and> between userId otherUserId msg)
                                   allMessages)
                   in Some \<lparr>conv_type = direct, otherUser = Some ou, conv_group = None,
                             lastMessage = first_or_null msgs, unreadCount = 0\<rparr>))
           (otherUserIds st userId))"

definition groupConversations :: "memStorage \<Rightarrow> string \<Rightarrow> conversation list" where
  "groupConversations st userId =
     (let allMessages = map snd (messages st)
      in map (\<lambda>g.
                let groupMessages = sort_key (\<lambda>m. - createdAt m)
                      (filter (\<lambda>msg. groupId msg = Some (group_id (gwm_group g))) allMessages)
                in \<lparr>conv_type = groupConv, otherUser = None, conv_group = Some g,
                     lastMessage = first_or_null groupMessages, unreadCount = 0\<rparr>)
           (getGroupsForUser st userId))"

definition getConversationsForUser :: "memStorage \<Rightarrow> string \<Rightarrow> conversation list" where
  "getConversationsForUser st userId =
     sort_key (\<lambda>c. - convTime c) (directConversations st userId @ groupConversations st userId)"

definition searchUsers :: "memStorage \<Rightarrow> string \<Rightarrow> user list" where
  "searchUsers st query =
     (let lowerQuery = toLowerCase query
      in filter (\<lambda>u. includes_str (toLowerCase (username u)) lowerQuery) (map snd (users st)))"

section \<open>Request schemas (shared/schema.ts)\<close>

text \<open>
  \<open>safeParse\<close> on a body whose fields already have their declared types: the result is the
  parsed data, or the message of the first issue. Only the checks the schemas add to the
  column types remain: the password's minimal length, the non-empty \<open>memberIds\<close>, and the
  \<open>refine\<close> of the message schema (JavaScript truthiness of the two addressing fields).
  A \<open>text\<close> column such as \<open>name\<close> or \<open>username\<close> is \<open>z.string()\<close>, with no bound.
\<close>

definition insertUserSchema :: "insertUser \<Rightarrow> string + insertUser" where
  "insertUserSchema d =
     (if length (password d) < 6 then Inl ''Password must be at least 6 characters'' else Inr d)"

definition insertGroupSchema :: "insertGroup \<Rightarrow> string + insertGroup" where
  "insertGroupSchema d =
     (if length (memberIds d) < 1 then Inl ''At least one member is required'' else Inr d)"

definition insertMessageSchema :: "insertMessage \<Rightarrow> string + insertMessage" where
  "insertMessageSchema d =
     (if (truthy (im_recipientId d) \<and> \<not> truthy (im_groupId d)) \<or>
         (\<not> truthy (im_recipientId d) \<and> truthy (im_groupId d))
      then Inr d
      else Inl ''Message must have either recipientId or groupId, not both'')"

section \<open>Route handlers (routes.ts)\<close>

text \<open>
  What a handler sends is a JSON value; an object is its list of fields in order, and
  \<open>{...o, k: v}\<close> is \<open>AList.update k v o\<close>. A \<open>Date\<close> field is rendered by its time value. The
  handlers below are the bodies that run after \<open>requireAuth\<close>, so \<open>req.session.userId\<close> is
  an argument, and each returns the store it leaves together with its response.
\<close>

datatype json = JNull | JStr string | JNum int | JArr "json list" | JObj "(string \<times> json) list"

datatype response = Json json | Error nat string

definition jnullable :: "string option \<Rightarrow> json" where
  "jnullable x = (case x of None \<Rightarrow> JNull | Some s \<Rightarrow> JStr s)"

definition userObj :: "user \<Rightarrow> (string \<times> json) list" where
  "userObj u =
     [(''id'', JStr (user_id u)), (''username'', JStr (username u)),
      (''passwordHash'', JStr (passwordHash u))]"

definition groupObj :: "group \<Rightarrow> (string \<times> json) list" where
  "groupObj g =
     [(''id'', JStr (group_id g)), (''name'', JStr (group_name g)),
      (''createdBy'', JStr (createdBy g)), (''createdAt'', JNum (group_createdAt g))]"

definition groupWithMembersObj :: "groupWithMembers \<Rightarrow> (string \<times> json) list" where
  "groupWithMembersObj g =
     groupObj (gwm_group g) @
     [(''members'', JArr (map (\<lambda>u. JObj (userObj u)) (members g))),
      (''memberCount'', JNum (int (memberCount g)))]"

definition messageObj :: "message \<Rightarrow> (string \<times> json) list" where
  "messageObj m =
     [(''id'', JStr (msg_id m)), (''senderId'', JStr (senderId m)),
      (''recipientId'', jnullable (recipientId m)), (''groupId'', jnullable (groupId m)),
      (''content'', JStr (content m)), (''createdAt'', JNum (createdAt m))]"

text \<open>\<open>const { passwordHash, ...userWithoutPassword } = user\<close>.\<close>

definition sanitizeUser :: "user \<Rightarrow> (string \<times> json) list" where
  "sanitizeUser u = filter (\<lambda>kv. fst kv \<noteq> ''passwordHash'') (userObj u)"

definition sanitizedGroup :: "groupWithMembers \<Rightarrow> (string \<times> json) list" where
  "sanitizedGroup g =
     AList.update ''members'' (JArr (map (\<lambda>u. JObj (sanitizeUser u)) (members g)))
       (groupWithMembersObj g)"

subsection \<open>POST /api/auth/signup\<close>

definition postSignup :: "memStorage \<Rightarrow> string \<Rightarrow> string \<Rightarrow> insertUser \<Rightarrow> memStorage \<times> response" where
  "postSignup st newId hash body =
     (case insertUserSchema body of
        Inl e \<Rightarrow> (st, Error 400 e)
      | Inr d \<Rightarrow>
          (case getUserByUsername st (iu_username d) of
             Some existingUser \<Rightarrow> (st, Error 400 ''Username already taken'')
           | None \<Rightarrow>
               (let (st', u) = createUser st newId hash
                                 \<lparr>iu_username = iu_username d, password = password d\<rparr>
                in (st', Json (JObj (sanitizeUser u))))))"

subsection \<open>GET /api/users/search\<close>

text \<open>
  The handler first tests \<open>!query || query.trim().length === 0\<close> and then calls
  \<open>storage.getAllUsers()\<close>. Neither \<open>IStorage\<close> nor \<open>MemStorage\<close> has such a method, so the
  call throws a \<open>TypeError\<close>; the handler's \<open>catch\<close> answers 500. A thrown exception is an
  \<open>Inl\<close>. (The other handlers have the same \<open>try\<close>/\<open>catch\<close>; nothing they call throws.)
\<close>

datatype exception = TypeError string

definition getAllUsers :: "memStorage \<Rightarrow> exception + user list" where
  "getAllUsers st = Inl (TypeError ''storage.getAllUsers is not a function'')"

definition allUsersResponse :: "memStorage \<Rightarrow> response" where
  "allUsersResponse st =
     (case getAllUsers st of
        Inl error \<Rightarrow> Error 500 ''Failed to search users''
      | Inr allUsers \<Rightarrow> Json (JArr (map (\<lambda>u. JObj (sanitizeUser u)) allUsers)))"

definition getUsersSearch :: "memStorage \<Rightarrow> string option \<Rightarrow> response" where
  "getUsersSearch st query =
     (case query of
        None \<Rightarrow> allUsersResponse st
      | Some q \<Rightarrow>
          if q = [] \<or> length (trim q) = 0
          then allUsersResponse st
          else Json (JArr (map (\<lambda>u. JObj (sanitizeUser u)) (searchUsers st q))))"

subsection \<open>POST /api/groups\<close>

definition postGroups :: "memStorage \<Rightarrow> string \<Rightarrow> int \<Rightarrow> string \<Rightarrow> insertGroup \<Rightarrow> memStorage \<times> response" where
  "postGroups st newId now userId body =
     (case insertGroupSchema body of
        Inl e \<Rightarrow> (st, Error 400 e)
      | Inr d \<Rightarrow>
          (let (st', g) = createGroup st newId now userId d
           in case getGroupWithMembers st' (group_id g) of
                None \<Rightarrow> (st', Error 500 ''Failed to get group data'')
              | Some gwm \<Rightarrow> (st', Json (JObj (sanitizedGroup gwm)))))"

subsection \<open>The create-group dialog (create-group-dialog.tsx)\<close>

text \<open>\<open>handleSubmit\<close> of the client's dialog: it sets an error and returns, or sends the
  body of \<open>POST /api/groups\<close>.\<close>

definition handleSubmit :: "string \<Rightarrow> string list \<Rightarrow> string + insertGroup" where
  "handleSubmit groupName selectedUserIds =
     (if trim groupName = [] then Inl ''Please enter a group name''
      else if length selectedUserIds = 0 then Inl ''Please select at least one member''
      else Inr \<lparr>ig_name = trim groupName, memberIds = selectedUserIds\<rparr>)"

subsection \<open>POST /api/messages and the WebSocket broadcast\<close>

text \<open>\<open>wss.clients\<close> is the server's set of sockets, each with its \<open>readyState\<close>. A
  broadcast returns what was sent: one pair per \<open>client.send\<close>.\<close>

datatype readyState = CONNECTING | OPEN | CLOSING | CLOSED

record client =
  client_id :: nat
  readyState :: readyState

definition broadcast :: "client list \<Rightarrow> json \<Rightarrow> (client \<times> json) list" where
  "broadcast clients payload =
     map (\<lambda>c. (c, payload)) (filter (\<lambda>c. readyState c = OPEN) clients)"

text \<open>The block of the handler that attaches the sender and the recipient or the group to
  the stored message; each early \<open>return res.status(500)\<close> is an \<open>Inl\<close>.\<close>

definition enrichMessage :: "memStorage \<Rightarrow> message \<Rightarrow> string + json" where
  "enrichMessage st msg =
     (case getUser st (senderId msg) of
        None \<Rightarrow> Inl ''Failed to get sender data''
      | Some s \<Rightarrow>
          (let base = messageObj msg @ [(''sender'', JObj (sanitizeUser s))]
           in if truthy (recipientId msg) then
                (case Option.bind (recipientId msg) (getUser st) of
                   None \<Rightarrow> Inl ''Failed to get recipient data''
                 | Some r \<Rightarrow> Inr (JObj (AList.update ''recipient'' (JObj (sanitizeUser r)) base)))
              else if truthy (groupId msg) then
                (case Option.bind (groupId msg) (getGroupWithMembers st) of
                   None \<Rightarrow> Inl ''Failed to get group data''
                 | Some g \<Rightarrow> Inr (JObj (AList.update ''group'' (JObj (sanitizedGroup g)) base)))
              else Inr (JObj base)))"

definition postMessages ::
  "memStorage \<Rightarrow> client list \<Rightarrow> string \<Rightarrow> int \<Rightarrow> string \<Rightarrow> insertMessage
     \<Rightarrow> memStorage \<times> response \<times> (client \<times> json) list" where
  "postMessages st clients newId now userId body =
     (case insertMessageSchema body of
        Inl e \<Rightarrow> (st, Error 400 e, [])
      | Inr d \<Rightarrow>
          (let (st', msg) = createMessage st newId now userId d
           in case enrichMessage st' msg of
                Inl e \<Rightarrow> (st', Error 500 e, [])
              | Inr p \<Rightarrow> (st', Json p, broadcast clients p)))"

section \<open>Notions used to state the properties\<close>

text \<open>Usernames are pairwise different across the registry.\<close>

definition usernames_unique :: "memStorage \<Rightarrow> bool" where
  "usernames_unique st \<longleftrightarrow> distinct (map (\<lambda>kv. username (snd kv)) (users st))"

text \<open>The requests that change the store, each with the values it draws (identifier,
  hash, time) and, for a message, the sockets connected at that moment. A run handles a
  sequence of them one after the other.\<close>

datatype request =
    Signup string string insertUser
  | NewGroup string int string insertGroup
  | NewMessage "client list" string int string insertMessage

fun handle :: "memStorage \<Rightarrow> request \<Rightarrow> memStorage" where
  "handle st (Signup newId hash body) = fst (postSignup st newId hash body)"
| "handle st (NewGroup newId now userId body) = fst (postGroups st newId now userId body)"
| "handle st (NewMessage clients newId now userId body) =
     fst (postMessages st clients newId now userId body)"

definition run :: "memStorage \<Rightarrow> request list \<Rightarrow> memStorage" where
  "run st reqs = foldl handle st reqs"

text \<open>The maps of a store are JavaScript \<open>Map\<close>s, so no key occurs twice; a user and a group
  are stored under their own \<open>id\<close>; and \<open>createGroup\<close> is the only writer of new keys to
  \<open>groups\<close> and \<open>groupMembers\<close>, always to both.\<close>

definition wf_storage :: "memStorage \<Rightarrow> bool" where
  "wf_storage st \<longleftrightarrow>
     distinct (map fst (users st)) \<and> distinct (map fst (messages st)) \<and>
     distinct (map fst (groups st)) \<and> distinct (map fst (groupMembers st)) \<and>
     list_all (\<lambda>kv. user_id (snd kv) = fst kv) (users st) \<and>
     list_all (\<lambda>kv. group_id (snd kv) = fst kv) (groups st) \<and>
     fst ` set (groupMembers st) = fst ` set (groups st)"

text \<open>\<open>createdAt\<close> is the time \<open>new Date()\<close> gave when the message was created, in
  milliseconds since 1970: a positive number.\<close>

definition timestamps_positive :: "memStorage \<Rightarrow> bool" where
  "timestamps_positive st \<longleftrightarrow> list_all (\<lambda>kv. 0 < createdAt (snd kv)) (messages st)"

text \<open>The identity a conversation is about: the other user's id, or the group's id.\<close>

definition conv_key :: "conversation \<Rightarrow> string option" where
  "conv_key c =
     (case conv_type c of
        direct \<Rightarrow> map_option user_id (otherUser c)
      | groupConv \<Rightarrow> map_option (\<lambda>g. group_id (gwm_group g)) (conv_group c))"

text \<open>A conversation is identified by its kind and that identity.\<close>

definition conv_id :: "conversation \<Rightarrow> convType \<times> string option" where
  "conv_id c = (conv_type c, conv_key c)"

text \<open>The direct counterparts of a user, in the words of the spec: \<open>other\<close> is the recipient
  of a direct message the user sent, or the sender of a direct message the user received.
  A direct message is one without a group.\<close>

definition counterpart_of :: "string \<Rightarrow> message \<Rightarrow> string \<Rightarrow> bool" where
  "counterpart_of u m other \<longleftrightarrow>
     \<not> truthy (groupId m) \<and>
     ((senderId m = u \<and> recipientId m = Some other \<and> other \<noteq> []) \<or>
      (recipientId m = Some u \<and> senderId m = other))"

definition counterparts :: "memStorage \<Rightarrow> string \<Rightarrow> string set" where
  "counterparts st u = {other. \<exists>m \<in> snd ` set (messages st). counterpart_of u m other}"

text \<open>The groups a user currently belongs to.\<close>

definition memberGroups :: "memStorage \<Rightarrow> string \<Rightarrow> string set" where
  "memberGroups st u = {g. \<exists>ids. map_of (groupMembers st) g = Some ids \<and> u \<in> set ids}"

text \<open>Containment without regard to case, in the words of the spec: some stretch of the
  name matches the query letter by letter, two letters matching when they differ at most
  in case.\<close>

definition same_letter :: "char \<Rightarrow> char \<Rightarrow> bool" where
  "same_letter a b \<longleftrightarrow> lower_char a = lower_char b"

definition contains_ci :: "string \<Rightarrow> string \<Rightarrow> bool" where
  "contains_ci name q \<longleftrightarrow> (\<exists>ps w ss. name = ps @ w @ ss \<and> list_all2 same_letter w q)"

text \<open>A blank query: empty, or white space only.\<close>

definition blank :: "string \<Rightarrow> bool" where
  "blank q \<longleftrightarrow> list_all is_space q"

text \<open>The wire format, in the words of the spec: an embedded user carries its id and
  username and no credential; an embedded group carries its own fields, its member list of
  such users and their number; a message carries its own fields and its embedded sender,
  followed by the embedded recipient or group.\<close>

definition publicUser :: "user \<Rightarrow> json" where
  "publicUser u = JObj [(''id'', JStr (user_id u)), (''username'', JStr (username u))]"

definition publicGroup :: "group \<Rightarrow> user list \<Rightarrow> json" where
  "publicGroup g ms =
     JObj [(''id'', JStr (group_id g)), (''name'', JStr (group_name g)),
           (''createdBy'', JStr (createdBy g)), (''createdAt'', JNum (group_createdAt g)),
           (''members'', JArr (map publicUser ms)), (''memberCount'', JNum (int (length ms)))]"

definition wireMessage ::
  "string \<Rightarrow> string \<Rightarrow> string option \<Rightarrow> string option \<Rightarrow> string \<Rightarrow> int \<Rightarrow> user
     \<Rightarrow> (string \<times> json) list" where
  "wireMessage mid sid rid gid text time s =
     [(''id'', JStr mid), (''senderId'', JStr sid), (''recipientId'', jnullable rid),
      (''groupId'', jnullable gid), (''content'', JStr text), (''createdAt'', JNum time),
      (''sender'', publicUser s)]"

text \<open>A key occurs somewhere in a JSON value: as a field of the value itself or of any
  object nested in it, at any depth.\<close>

fun mentions :: "string \<Rightarrow> json \<Rightarrow> bool" where
  "mentions k (JObj kvs) = (\<exists>kv \<in> set kvs. fst kv = k \<or> mentions k (snd kv))"
| "mentions k (JArr xs) = (\<exists>x \<in> set xs. mentions k x)"
| "mentions k _ = False"

text \<open>The embedded sender of a payload.\<close>

definition senderOf :: "json \<Rightarrow> json option" where
  "senderOf p = (case p of JObj fs \<Rightarrow> map_of fs ''sender'' | _ \<Rightarrow> None)"

text \<open>The \<open>NotFound\<close> answer of the routes: status 404, as \<open>GET /api/users/:userId\<close> and
  \<open>GET /api/groups/:groupId\<close> give for a missing user or group.\<close>

definition isNotFound :: "response \<Rightarrow> bool" where
  "isNotFound r = (case r of Error code e \<Rightarrow> code = 404 | Json j \<Rightarrow> False)"

text \<open>The \<open>DuplicateUsername\<close> answer of the signup route.\<close>

definition isDuplicateUsername :: "response \<Rightarrow> bool" where
  "isDuplicateUsername r \<longleftrightarrow> r = Error 400 ''Username already taken''"

subsection \<open>A small store for concrete checks\<close>

definition ex_alice :: user where
  "ex_alice = \<lparr>user_id = ''u1'', username = ''Alice'', passwordHash = ''hash-a''\<rparr>"

definition ex_bob :: user where
  "ex_bob = \<lparr>user_id = ''u2'', username = ''bob'', passwordHash = ''hash-b''\<rparr>"

definition ex_carol :: user where
  "ex_carol = \<lparr>user_id = ''u3'', username = ''MALI'', passwordHash = ''hash-c''\<rparr>"

definition ex_dan :: user where
  "ex_dan = \<lparr>user_id = ''u4'', username = ''alias'', passwordHash = ''hash-d''\<rparr>"

definition ex_hi :: message where
  "ex_hi = \<lparr>msg_id = ''m1'', senderId = ''u1'', recipientId = Some ''u2'', groupId = None,
             content = ''hi'', createdAt = 10\<rparr>"

definition ex_hey :: message where
  "ex_hey = \<lparr>msg_id = ''m2'', senderId = ''u2'', recipientId = Some ''u1'', groupId = None,
              content = ''hey'', createdAt = 12\<rparr>"

definition ex_lost :: message where
  "ex_lost = \<lparr>msg_id = ''m3'', senderId = ''u1'', recipientId = Some ''ghost'', groupId = None,
               content = ''anyone?'', createdAt = 30\<rparr>"

definition ex_team_msg :: message where
  "ex_team_msg = \<lparr>msg_id = ''m4'', senderId = ''u3'', recipientId = None, groupId = Some ''g1'',
                   content = ''standup'', createdAt = 5\<rparr>"

definition ex_stray :: message where
  "ex_stray = \<lparr>msg_id = ''m5'', senderId = ''ghost'', recipientId = None, groupId = Some ''g1'',
                content = ''boo'', createdAt = 3\<rparr>"

definition ex_team :: "group" where
  "ex_team = \<lparr>group_id = ''g1'', group_name = ''team'', createdBy = ''u1'', group_createdAt = 1\<rparr>"

definition ex_quiet :: "group" where
  "ex_quiet = \<lparr>group_id = ''g2'', group_name = ''quiet'', createdBy = ''u2'', group_createdAt = 2\<rparr>"

definition ex_storage :: memStorage where
  "ex_storage =
     \<lparr>users = [(''u1'', ex_alice), (''u2'', ex_bob), (''u3'', ex_carol), (''u4'', ex_dan)],
      messages = [(''m1'', ex_hi), (''m2'', ex_hey), (''m3'', ex_lost), (''m4'', ex_team_msg),
                  (''m5'', ex_stray)],
      groups = [(''g1'', ex_team), (''g2'', ex_quiet)],
      groupMembers = [(''g1'', [''u1'', ''u3'']), (''g2'', [''u2'', ''u1''])]\<rparr>"

definition ex_both :: insertMessage where
  "ex_both = \<lparr>im_recipientId = Some ''u2'', im_groupId = Some ''g1'', im_content = ''x''\<rparr>"

definition ex_to_bob :: insertMessage where
  "ex_to_bob = \<lparr>im_recipientId = Some ''u2'', im_groupId = None, im_content = ''yo''\<rparr>"

definition ex_clients :: "client list" where
  "ex_clients = [\<lparr>client_id = 1, readyState = OPEN\<rparr>, \<lparr>client_id = 2, readyState = CLOSED\<rparr>,
                 \<lparr>client_id = 3, readyState = OPEN\<rparr>, \<lparr>client_id = 4, readyState = CONNECTING\<rparr>]"

definition ex_short :: insertUser where
  "ex_short = \<lparr>iu_username = ''bob'', password = ''12345''\<rparr>"

definition ex_requests :: "request list" where
  "ex_requests =
     [Signup ''u1'' ''hash-a'' \<lparr>iu_username = ''Alice'', password = ''secret1''\<rparr>,
      Signup ''u2'' ''hash-b'' \<lparr>iu_username = ''bob'', password = ''secret2''\<rparr>,
      Signup ''u4'' ''hash-d'' \<lparr>iu_username = ''Alice'', password = ''secret3''\<rparr>,
      NewGroup ''g1'' 1 ''u1'' \<lparr>ig_name = ''team'', memberIds = [''u2'']\<rparr>,
      Signup ''u5'' ''hash-e'' \<lparr>iu_username = ''alice'', password = ''secret4''\<rparr>]"

definition ex_to_team :: insertMessage where
  "ex_to_team = \<lparr>im_recipientId = None, im_groupId = Some ''g1'', im_content = ''all hands''\<rparr>"

definition ex_to_nobody :: insertMessage where
  "ex_to_nobody = \<lparr>im_recipientId = Some ''nobody'', im_groupId = None, im_content = ''hello?''\<rparr>"

definition ex_to_nogroup :: insertMessage where
  "ex_to_nogroup = \<lparr>im_recipientId = None, im_groupId = Some ''nogroup'', im_content = ''hello?''\<rparr>"

text \<open>A store reached through the routes: one signup, then a message to an id that names
  no user.\<close>

definition ex_orphaned :: memStorage where
  "ex_orphaned =
     run newStorage
       [Signup ''u1'' ''hash-a'' \<lparr>iu_username = ''Alice'', password = ''secret1''\<rparr>,
        NewMessage [] ''m1'' 30 ''u1''
          \<lparr>im_recipientId = Some ''ghost'', im_groupId = None, im_content = ''anyone?''\<rparr>]"

lemmas ex_defs =
  ex_storage_def ex_alice_def ex_bob_def ex_carol_def ex_dan_def ex_hi_def ex_hey_def ex_lost_def
  ex_team_msg_def ex_stray_def ex_team_def ex_quiet_def

lemmas route_defs =
  postMessages_def insertMessageSchema_def truthy_def createMessage_def or_null_def
  enrichMessage_def getUser_def getGroup_def getGroupWithMembers_def getGroupMembers_def
  broadcast_def messageObj_def jnullable_def sanitizeUser_def userObj_def sanitizedGroup_def
  groupWithMembersObj_def groupObj_def Let_def List.map_filter_simps

lemmas conv_defs =
  getConversationsForUser_def directConversations_def groupConversations_def otherUserIds_def
  collectOther_def getGroupsForUser_def getGroupWithMembers_def getGroupMembers_def getUser_def
  between_def truthy_def set_add_def first_or_null_def convTime_def conv_id_def conv_key_def
  Let_def List.map_filter_simps

section \<open>Auxiliary facts\<close>

lemma set_map_filter: "set (List.map_filter f xs) = {y. \<exists>x\<in>set xs. f x = Some y}"
  by (induction xs) (auto simp: List.map_filter_simps split: option.splits)

lemma map_map_filter_inv:
  assumes "\<And>x y. f x = Some y \<Longrightarrow> g y = x"
  shows "map g (List.map_filter f xs) = filter (\<lambda>x. f x \<noteq> None) xs"
  using assms by (induction xs) (auto simp: List.map_filter_simps split: option.splits)

lemma set_update_subset: "set (AList.update k v al) \<subseteq> insert (k, v) (set al)"
  by (induction al) auto

lemma set_map_update_subset:
  "set (map f (AList.update k v al)) \<subseteq> insert (f (k, v)) (set (map f al))"
  using set_update_subset[of k v al] by auto

lemma distinct_map_update:
  assumes "distinct (map f al)" "f (k, v) \<notin> set (map f al)"
  shows "distinct (map f (AList.update k v al))"
  using assms
proof (induction al)
  case Nil
  then show ?case by simp
next
  case (Cons p ps)
  show ?case
  proof (cases "fst p = k")
    case True
    then show ?thesis using Cons.prems by simp
  next
    case False
    have "f p \<notin> set (map f (AList.update k v ps))"
      using set_map_update_subset[of f k v ps] Cons.prems by auto
    then show ?thesis using False Cons by simp
  qed
qed

lemma truthy_or_null [simp]: "truthy (or_null x) = truthy x"
  by (simp add: or_null_def truthy_def)

lemma or_null_None: "(or_null x = None) = (\<not> truthy x)"
  by (auto simp: or_null_def truthy_def split: option.splits)

subsection \<open>Reading messages\<close>

lemma between_sym: "between u1 u2 = between u2 u1"
  by (auto simp: between_def fun_eq_iff)

lemma messages_of_between:
  "map mwu_message (getMessagesBetweenUsers st u1 u2) =
     sort_key createdAt
       (filter (\<lambda>m. between u1 u2 m \<and> getUser st (senderId m) \<noteq> None \<and>
                     Option.bind (recipientId m) (getUser st) \<noteq> None)
          (map snd (messages st)))"
proof -
  let ?f = "\<lambda>msg. case (getUser st (senderId msg), Option.bind (recipientId msg) (getUser st)) of
                     (Some s, Some r) \<Rightarrow>
                        Some \<lparr>mwu_message = msg, sender = s, recipient = Some r, mwu_group = None\<rparr>
                   | _ \<Rightarrow> None"
  have inv: "\<And>x y. ?f x = Some y \<Longrightarrow> mwu_message y = x"
    by (auto split: option.splits)
  have ne: "\<And>x. (?f x \<noteq> None) = (getUser st (senderId x) \<noteq> None \<and>
                     Option.bind (recipientId x) (getUser st) \<noteq> None)"
    by (auto split: option.splits)
  show ?thesis
    unfolding getMessagesBetweenUsers_def Let_def
    by (simp only: map_map_filter_inv[of ?f mwu_message, OF inv] ne filter_sort filter_filter
          conj_commute conj_left_commute)
qed

lemma messages_of_group:
  "map mwu_message (getGroupMessages st g) =
     sort_key createdAt
       (filter (\<lambda>m. groupId m = Some g \<and> getUser st (senderId m) \<noteq> None \<and> getGroup st g \<noteq> None)
          (map snd (messages st)))"
proof -
  let ?f = "\<lambda>msg. case (getUser st (senderId msg), getGroupWithMembers st g) of
                     (Some s, Some g) \<Rightarrow>
                        Some \<lparr>mwu_message = msg, sender = s, recipient = None, mwu_group = Some g\<rparr>
                   | _ \<Rightarrow> None"
  have inv: "\<And>x y. ?f x = Some y \<Longrightarrow> mwu_message y = x"
    by (auto split: option.splits)
  have gw: "(getGroupWithMembers st g \<noteq> None) = (getGroup st g \<noteq> None)"
    by (simp add: getGroupWithMembers_def getGroup_def Let_def split: option.splits)
  have ne: "\<And>x. (?f x \<noteq> None) = (getUser st (senderId x) \<noteq> None \<and> getGroup st g \<noteq> None)"
    unfolding gw[symmetric] by (auto split: option.splits)
  show ?thesis
    unfolding getGroupMessages_def Let_def
    by (simp only: map_map_filter_inv[of ?f mwu_message, OF inv] ne filter_sort filter_filter
          conj_commute conj_left_commute)
qed

lemma enriched_between_mem:
  assumes "m \<in> snd ` set (messages st)" "between u1 u2 m"
    "getUser st (senderId m) = Some su" "recipientId m = Some r" "getUser st r = Some ru"
  shows "\<lparr>mwu_message = m, sender = su, recipient = Some ru, mwu_group = None\<rparr>
           \<in> set (getMessagesBetweenUsers st u1 u2)"
  unfolding getMessagesBetweenUsers_def Let_def set_map_filter
  using assms by (auto intro!: bexI[where x=m])

subsection \<open>Creating messages and users\<close>

lemma postMessages_storage:
  "fst (postMessages st clients newId now userId body) =
     (case insertMessageSchema body of
        Inl e \<Rightarrow> st
      | Inr d \<Rightarrow> fst (createMessage st newId now userId d))"
  by (simp add: postMessages_def Let_def split: sum.splits prod.splits option.splits)

lemma getUserByUsername_None:
  "getUserByUsername st name = None \<longleftrightarrow> name \<notin> set (map (\<lambda>kv. username (snd kv)) (users st))"
  by (auto simp: getUserByUsername_def find_None_iff)

lemma postSignup_unique:
  assumes "usernames_unique st"
  shows "usernames_unique (fst (postSignup st newId hash body))"
proof (cases "insertUserSchema body")
  case (Inl e)
  then show ?thesis using assms by (simp add: postSignup_def)
next
  case (Inr d)
  then have d: "d = body" by (auto simp: insertUserSchema_def split: if_splits)
  show ?thesis
  proof (cases "getUserByUsername st (iu_username body)")
    case None
    then have "iu_username body \<notin> set (map (\<lambda>kv. username (snd kv)) (users st))"
      by (simp add: getUserByUsername_None)
    then have "distinct (map (\<lambda>kv. username (snd kv))
                 (AList.update newId \<lparr>user_id = newId, username = iu_username body, passwordHash = hash\<rparr>
                    (users st)))"
      using assms by (intro distinct_map_update) (auto simp: usernames_unique_def)
    then show ?thesis
      using Inr None d by (simp add: postSignup_def createUser_def Let_def usernames_unique_def)
  next
    case (Some u)
    then show ?thesis using Inr d assms by (simp add: postSignup_def)
  qed
qed

lemma postGroups_users: "users (fst (postGroups st newId now userId body)) = users st"
  by (simp add: postGroups_def createGroup_def Let_def split: sum.splits option.splits)

lemma postMessages_users: "users (fst (postMessages st clients newId now userId body)) = users st"
  by (simp add: postMessages_storage createMessage_def Let_def split: sum.splits)

lemma handle_unique:
  assumes "usernames_unique st"
  shows "usernames_unique (handle st r)"
proof (cases r)
  case (Signup newId hash body)
  then show ?thesis using assms by (simp add: postSignup_unique)
next
  case (NewGroup newId now userId body)
  then show ?thesis using assms by (simp add: usernames_unique_def postGroups_users)
next
  case (NewMessage clients newId now userId body)
  then show ?thesis using assms by (simp add: usernames_unique_def postMessages_users)
qed

lemma run_unique: "usernames_unique st \<Longrightarrow> usernames_unique (run st reqs)"
  unfolding run_def by (induction reqs arbitrary: st) (simp_all add: handle_unique)

subsection \<open>The message route\<close>

lemma insertMessageSchema_cases:
  obtains (rejected) "truthy (im_recipientId body) = truthy (im_groupId body)"
      "insertMessageSchema body = Inl ''Message must have either recipientId or groupId, not both''"
  | (accepted) "truthy (im_recipientId body) \<noteq> truthy (im_groupId body)"
      "insertMessageSchema body = Inr body"
  by (cases "truthy (im_recipientId body) = truthy (im_groupId body)")
     (auto simp: insertMessageSchema_def)

lemma postMessages_Json:
  assumes "postMessages st clients newId now userId body = (st', Json p, sent)"
  shows "insertMessageSchema body = Inr body \<and>
         st' = fst (createMessage st newId now userId body) \<and>
         enrichMessage st' (snd (createMessage st newId now userId body)) = Inr p \<and>
         sent = broadcast clients p"
proof (cases body rule: insertMessageSchema_cases)
  case rejected
  then show ?thesis using assms by (simp add: postMessages_def)
next
  case accepted
  then show ?thesis using assms
    by (simp add: postMessages_def Let_def split: prod.splits sum.splits)
qed

lemma createMessage_users [simp]:
  "users (fst (createMessage st newId now userId body)) = users st"
  "groups (fst (createMessage st newId now userId body)) = groups st"
  "groupMembers (fst (createMessage st newId now userId body)) = groupMembers st"
  by (simp_all add: createMessage_def Let_def)

lemma getUser_createMessage [simp]:
  "getUser (fst (createMessage st newId now userId body)) = getUser st"
  by (simp add: getUser_def fun_eq_iff)

lemma getGroupWithMembers_createMessage [simp]:
  "getGroupWithMembers (fst (createMessage st newId now userId body)) = getGroupWithMembers st"
  by (simp add: getGroupWithMembers_def getGroupMembers_def fun_eq_iff cong: option.case_cong)

lemma getGroupWithMembers_None: "(getGroupWithMembers st g = None) = (getGroup st g = None)"
  by (simp add: getGroupWithMembers_def getGroup_def Let_def split: option.splits)

lemma postMessages_accepted:
  assumes "insertMessageSchema body = Inr body"
  shows "postMessages st clients newId now userId body =
     (case enrichMessage (fst (createMessage st newId now userId body))
             (snd (createMessage st newId now userId body)) of
        Inl e \<Rightarrow> (fst (createMessage st newId now userId body), Error 500 e, [])
      | Inr p \<Rightarrow> (fst (createMessage st newId now userId body), Json p, broadcast clients p))"
  using assms by (simp add: postMessages_def Let_def case_prod_unfold)

subsection \<open>Payloads\<close>

lemma sanitizeUser_eq:
  "sanitizeUser u = [(''id'', JStr (user_id u)), (''username'', JStr (username u))]"
  by (simp add: sanitizeUser_def userObj_def)

lemma sanitizedGroup_eq:
  "sanitizedGroup g =
     groupObj (gwm_group g) @
     [(''members'', JArr (map (\<lambda>u. JObj (sanitizeUser u)) (members g))),
      (''memberCount'', JNum (int (memberCount g)))]"
  by (simp add: sanitizedGroup_def groupWithMembersObj_def groupObj_def)

lemma no_hash_sanitizeUser: "\<not> mentions ''passwordHash'' (JObj (sanitizeUser u))"
  by (simp add: sanitizeUser_eq)

lemma no_hash_sanitizedGroup: "\<not> mentions ''passwordHash'' (JObj (sanitizedGroup g))"
  by (simp add: sanitizedGroup_eq groupObj_def sanitizeUser_eq)

lemma no_hash_messageObj: "\<not> mentions ''passwordHash'' (JObj (messageObj m))"
  by (simp add: messageObj_def jnullable_def split: option.splits)

lemma mentions_update:
  assumes "mentions k (JObj (AList.update a v obj))"
  shows "a = k \<or> mentions k v \<or> mentions k (JObj obj)"
  using assms set_update_subset[of a v obj] by auto

lemma mentions_append:
  "mentions k (JObj (xs @ ys)) \<longleftrightarrow> mentions k (JObj xs) \<or> mentions k (JObj ys)"
  by auto


lemma map_of_update_other: "a \<noteq> k \<Longrightarrow> map_of (AList.update a v al) k = map_of al k"
  by (simp add: update_conv')

lemma enrichMessage_Inr:
  assumes "enrichMessage st msg = Inr p"
  obtains s where "getUser st (senderId msg) = Some s"
    and "(\<exists>r. p = JObj (AList.update ''recipient'' (JObj (sanitizeUser r))
                  (messageObj msg @ [(''sender'', JObj (sanitizeUser s))]))) \<or>
         (\<exists>g. p = JObj (AList.update ''group'' (JObj (sanitizedGroup g))
                  (messageObj msg @ [(''sender'', JObj (sanitizeUser s))]))) \<or>
         p = JObj (messageObj msg @ [(''sender'', JObj (sanitizeUser s))])"
proof (cases "getUser st (senderId msg)")
  case None
  then show ?thesis using assms by (simp add: enrichMessage_def)
next
  case (Some s)
  have "(\<exists>r. p = JObj (AList.update ''recipient'' (JObj (sanitizeUser r))
                  (messageObj msg @ [(''sender'', JObj (sanitizeUser s))]))) \<or>
         (\<exists>g. p = JObj (AList.update ''group'' (JObj (sanitizedGroup g))
                  (messageObj msg @ [(''sender'', JObj (sanitizeUser s))]))) \<or>
         p = JObj (messageObj msg @ [(''sender'', JObj (sanitizeUser s))])"
    using assms Some
    by (simp add: enrichMessage_def Let_def split: if_splits option.splits) blast+
  with Some show ?thesis by (rule that)
qed

lemma enrichMessage_fields:
  assumes "enrichMessage st msg = Inr p"
  shows "\<exists>fs. p = JObj fs \<and> map_of fs ''id'' = Some (JStr (msg_id msg)) \<and>
              map_of fs ''senderId'' = Some (JStr (senderId msg)) \<and>
              map_of fs ''content'' = Some (JStr (content msg)) \<and>
              map_of fs ''createdAt'' = Some (JNum (createdAt msg))"
proof -
  from assms obtain s where
    cases: "(\<exists>r. p = JObj (AList.update ''recipient'' (JObj (sanitizeUser r))
                  (messageObj msg @ [(''sender'', JObj (sanitizeUser s))]))) \<or>
         (\<exists>g. p = JObj (AList.update ''group'' (JObj (sanitizedGroup g))
                  (messageObj msg @ [(''sender'', JObj (sanitizeUser s))]))) \<or>
         p = JObj (messageObj msg @ [(''sender'', JObj (sanitizeUser s))])"
    by (rule enrichMessage_Inr)
  let ?base = "messageObj msg @ [(''sender'', JObj (sanitizeUser s))]"
  have b: "map_of ?base ''id'' = Some (JStr (msg_id msg))"
    "map_of ?base ''senderId'' = Some (JStr (senderId msg))"
    "map_of ?base ''content'' = Some (JStr (content msg))"
    "map_of ?base ''createdAt'' = Some (JNum (createdAt msg))"
    by (simp_all add: messageObj_def)
  from cases show ?thesis
    by (elim disjE exE) (simp_all add: map_of_update_other b del: map_of_append)
qed

lemma enrichMessage_no_hash:
  assumes "enrichMessage st msg = Inr p"
  shows "\<not> mentions ''passwordHash'' p"
proof -
  from assms obtain s where
    cases: "(\<exists>r. p = JObj (AList.update ''recipient'' (JObj (sanitizeUser r))
                  (messageObj msg @ [(''sender'', JObj (sanitizeUser s))]))) \<or>
         (\<exists>g. p = JObj (AList.update ''group'' (JObj (sanitizedGroup g))
                  (messageObj msg @ [(''sender'', JObj (sanitizeUser s))]))) \<or>
         p = JObj (messageObj msg @ [(''sender'', JObj (sanitizeUser s))])"
    by (rule enrichMessage_Inr)
  let ?base = "messageObj msg @ [(''sender'', JObj (sanitizeUser s))]"
  have base: "\<not> mentions ''passwordHash'' (JObj ?base)"
    unfolding mentions_append using no_hash_messageObj[of msg] by (simp add: sanitizeUser_eq)
  from cases show ?thesis
  proof (elim disjE exE)
    fix r assume "p = JObj (AList.update ''recipient'' (JObj (sanitizeUser r)) ?base)"
    then show ?thesis
      using mentions_update[of "''passwordHash''" "''recipient''" "JObj (sanitizeUser r)" ?base]
        base no_hash_sanitizeUser[of r] by auto
  next
    fix g assume "p = JObj (AList.update ''group'' (JObj (sanitizedGroup g)) ?base)"
    then show ?thesis
      using mentions_update[of "''passwordHash''" "''group''" "JObj (sanitizedGroup g)" ?base]
        base no_hash_sanitizedGroup[of g] by auto
  next
    assume "p = JObj ?base"
    then show ?thesis using base by simp
  qed
qed

lemma enrichMessage_sender:
  assumes "enrichMessage st msg = Inr p"
  shows "\<exists>s. getUser st (senderId msg) = Some s \<and> senderOf p = Some (JObj (sanitizeUser s))"
proof -
  from assms obtain s where s: "getUser st (senderId msg) = Some s" and
    cases: "(\<exists>r. p = JObj (AList.update ''recipient'' (JObj (sanitizeUser r))
                  (messageObj msg @ [(''sender'', JObj (sanitizeUser s))]))) \<or>
         (\<exists>g. p = JObj (AList.update ''group'' (JObj (sanitizedGroup g))
                  (messageObj msg @ [(''sender'', JObj (sanitizeUser s))]))) \<or>
         p = JObj (messageObj msg @ [(''sender'', JObj (sanitizeUser s))])"
    by (rule enrichMessage_Inr)
  have sb: "map_of (messageObj msg @ [(''sender'', JObj (sanitizeUser s))]) ''sender'' =
              Some (JObj (sanitizeUser s))"
    by (simp add: messageObj_def)
  have "senderOf p = Some (JObj (sanitizeUser s))"
    using cases sb by (elim disjE exE) (simp_all add: senderOf_def map_of_update_other)
  with s show ?thesis by blast
qed

lemma update_fresh: "k \<notin> fst ` set al \<Longrightarrow> AList.update k v al = al @ [(k, v)]"
  by (induction al) auto

lemma publicUser_eq: "JObj (sanitizeUser u) = publicUser u"
  by (simp add: sanitizeUser_eq publicUser_def)

lemma publicGroup_eq:
  "JObj (sanitizedGroup g) = publicGroup (gwm_group g) (members g)" if "memberCount g = length (members g)"
  using that by (simp add: sanitizedGroup_eq publicGroup_def groupObj_def publicUser_eq comp_def)

lemma getGroupWithMembers_Some:
  assumes "getGroupWithMembers st g = Some gw"
  shows "getGroup st g = Some (gwm_group gw) \<and> members gw = getGroupMembers st g \<and>
         memberCount gw = length (members gw)"
  using assms by (auto simp: getGroupWithMembers_def getGroup_def Let_def split: option.splits)

lemma enrichMessage_wire:
  assumes "enrichMessage st msg = Inr p" and "truthy (recipientId msg) \<noteq> truthy (groupId msg)"
  shows "\<exists>s. getUser st (senderId msg) = Some s \<and>
           ((\<exists>r ru. recipientId msg = Some r \<and> r \<noteq> [] \<and> getUser st r = Some ru \<and>
               p = JObj (wireMessage (msg_id msg) (senderId msg) (Some r) (groupId msg)
                          (content msg) (createdAt msg) s @ [(''recipient'', publicUser ru)])) \<or>
            (\<exists>g grp. groupId msg = Some g \<and> g \<noteq> [] \<and> getGroup st g = Some grp \<and>
               p = JObj (wireMessage (msg_id msg) (senderId msg) (recipientId msg) (Some g)
                          (content msg) (createdAt msg) s @
                        [(''group'', publicGroup grp (getGroupMembers st g))])))"
proof (cases "getUser st (senderId msg)")
  case None
  then show ?thesis using assms by (simp add: enrichMessage_def)
next
  case (Some s)
  let ?base = "messageObj msg @ [(''sender'', JObj (sanitizeUser s))]"
  have w: "?base = wireMessage (msg_id msg) (senderId msg) (recipientId msg) (groupId msg)
                     (content msg) (createdAt msg) s"
    by (simp add: messageObj_def wireMessage_def publicUser_eq)
  have fr: "''recipient'' \<notin> fst ` set ?base" "''group'' \<notin> fst ` set ?base"
    by (simp_all add: messageObj_def)
  show ?thesis
  proof (cases "truthy (recipientId msg)")
    case True
    then obtain r where r: "recipientId msg = Some r" "r \<noteq> []"
      by (auto simp: truthy_def split: option.splits)
    from assms(1) Some True r obtain ru where ru: "getUser st r = Some ru"
      and p: "p = JObj (AList.update ''recipient'' (JObj (sanitizeUser ru)) ?base)"
      by (auto simp: enrichMessage_def Let_def split: option.splits)
    have "p = JObj (?base @ [(''recipient'', JObj (sanitizeUser ru))])"
      unfolding p update_fresh[OF fr(1)] ..
    then have "p = JObj (?base @ [(''recipient'', publicUser ru)])"
      by (simp only: publicUser_eq)
    then show ?thesis using Some r ru unfolding w by auto
  next
    case False
    with assms(2) have tg: "truthy (groupId msg)" by simp
    then obtain g where g: "groupId msg = Some g" "g \<noteq> []"
      by (auto simp: truthy_def split: option.splits)
    from assms(1) Some False tg g obtain gw where gw: "getGroupWithMembers st g = Some gw"
      and p: "p = JObj (AList.update ''group'' (JObj (sanitizedGroup gw)) ?base)"
      by (auto simp: enrichMessage_def Let_def split: option.splits)
    note parts = getGroupWithMembers_Some[OF gw]
    have "JObj (sanitizedGroup gw) = publicGroup (gwm_group gw) (getGroupMembers st g)"
      using publicGroup_eq[of gw] parts by simp
    moreover have "p = JObj (?base @ [(''group'', JObj (sanitizedGroup gw))])"
      unfolding p update_fresh[OF fr(2)] ..
    ultimately have "p = JObj (?base @ [(''group'', publicGroup (gwm_group gw) (getGroupMembers st g))])"
      by (simp only:)
    then show ?thesis using Some g parts unfolding w by auto
  qed
qed

subsection \<open>Searching users\<close>

lemma toLowerCase_latin1: "toLowerCase [CHR 0xC9, CHR ''v'', CHR ''a'', CHR 0xD7, CHR 0xDF] =
    [CHR 0xE9, CHR ''v'', CHR ''a'', CHR 0xD7, CHR 0xDF]"
  by (simp add: toLowerCase_def lower_char_def upper_letters_def lower_letters_def)

lemma trim_nbsp: "trim [CHR 0xA0, CHR ''a'', CHR '' '', CHR ''b'', CHR 0x09, CHR 0xA0] = ''a b''"
  by (simp add: trim_def is_space_def)

lemma includes_str_sublist: "includes_str s t \<longleftrightarrow> sublist t s"
  by (induction s) (auto simp: sublist_Cons_right)

lemma includes_str_Nil: "includes_str s []"
  by (cases s) simp_all

lemma list_all2_same_letter:
  "list_all2 same_letter w q \<longleftrightarrow> map lower_char w = map lower_char q"
proof (induction w arbitrary: q)
  case Nil
  then show ?case by auto
next
  case (Cons a w)
  then show ?case by (cases q) (auto simp: same_letter_def)
qed

lemma sublist_map_iff:
  "sublist (map f q) (map f name) \<longleftrightarrow> (\<exists>ps w ss. name = ps @ w @ ss \<and> map f w = map f q)"
proof
  assume "sublist (map f q) (map f name)"
  then obtain ps' ss' where "map f name = ps' @ map f q @ ss'"
    by (auto simp: sublist_def)
  then obtain ps rest where n: "name = ps @ rest" and r: "map f rest = map f q @ ss'"
    by (metis map_eq_append_conv)
  from r obtain w ss where "rest = w @ ss" and "map f w = map f q"
    by (metis map_eq_append_conv)
  with n show "\<exists>ps w ss. name = ps @ w @ ss \<and> map f w = map f q" by blast
next
  assume "\<exists>ps w ss. name = ps @ w @ ss \<and> map f w = map f q"
  then obtain ps w ss where "name = ps @ w @ ss" and "map f w = map f q" by blast
  then have "map f name = map f ps @ map f q @ map f ss" by simp
  then show "sublist (map f q) (map f name)" unfolding sublist_def by blast
qed

lemma includes_lower_contains_ci:
  "includes_str (toLowerCase name) (toLowerCase q) \<longleftrightarrow> contains_ci name q"
  by (simp add: includes_str_sublist toLowerCase_def sublist_map_iff contains_ci_def
        list_all2_same_letter)

lemma searchUsers_contains_ci:
  "searchUsers st q = filter (\<lambda>u. contains_ci (username u) q) (map snd (users st))"
  by (simp add: searchUsers_def Let_def includes_lower_contains_ci)

lemma trim_Nil_blank: "trim q = [] \<longleftrightarrow> blank q"
proof
  assume "trim q = []"
  then have all: "\<forall>c \<in> set (dropWhile is_space q). is_space c"
    by (simp add: trim_def dropWhile_eq_Nil_conv)
  have "dropWhile is_space q = []"
  proof (cases "dropWhile is_space q")
    case Nil
    then show ?thesis .
  next
    case (Cons c cs)
    then have "\<not> is_space c" using hd_dropWhile[of is_space q] by simp
    moreover have "is_space c" using all Cons by simp
    ultimately show ?thesis by simp
  qed
  then show "blank q"
    by (simp add: dropWhile_eq_Nil_conv blank_def list_all_iff)
next
  assume "blank q"
  then have d: "dropWhile is_space q = []"
    by (simp add: dropWhile_eq_Nil_conv blank_def list_all_iff)
  show "trim q = []" unfolding trim_def d by simp
qed

subsection \<open>Well-formed stores\<close>

lemma wf_newStorage: "wf_storage newStorage"
  by (simp add: wf_storage_def newStorage_def)

lemma list_all_update:
  assumes "list_all P al" "P (k, v)"
  shows "list_all P (AList.update k v al)"
  using assms set_update_subset[of k v al] by (auto simp: list_all_iff)

lemma wf_createUser:
  assumes "wf_storage st"
  shows "wf_storage (fst (createUser st newId hash ins))"
  using assms
  by (simp add: wf_storage_def createUser_def Let_def distinct_update list_all_update)

lemma wf_createMessage:
  assumes "wf_storage st"
  shows "wf_storage (fst (createMessage st newId now userId ins))"
  using assms by (simp add: wf_storage_def createMessage_def Let_def distinct_update)

lemma wf_createGroup:
  assumes "wf_storage st"
  shows "wf_storage (fst (createGroup st newId now creator ins))"
  using assms
  by (simp add: wf_storage_def createGroup_def Let_def distinct_update list_all_update dom_update)

lemma dom_update_existing:
  "map_of al k = Some v \<Longrightarrow> fst ` set (AList.update k v' al) = fst ` set al"
  by (auto simp: dom_update dest!: map_of_SomeD intro: rev_image_eqI)

lemma wf_addGroupMember:
  assumes "wf_storage st"
  shows "wf_storage (addGroupMember st gid uid)"
  using assms
  by (auto simp: wf_storage_def addGroupMember_def distinct_update dom_update_existing
        split: option.splits)

lemma wf_removeGroupMember:
  assumes "wf_storage st"
  shows "wf_storage (removeGroupMember st gid uid)"
  using assms
  by (auto simp: wf_storage_def removeGroupMember_def distinct_update dom_update_existing
        split: option.splits)

lemma wf_postSignup:
  assumes "wf_storage st"
  shows "wf_storage (fst (postSignup st newId hash body))"
  using assms wf_createUser[OF assms]
  by (simp add: postSignup_def case_prod_unfold Let_def split: sum.splits option.splits)

lemma wf_postMessages:
  assumes "wf_storage st"
  shows "wf_storage (fst (postMessages st clients newId now userId body))"
  unfolding postMessages_storage using assms wf_createMessage[OF assms]
  by (simp split: sum.splits)

lemma wf_postGroups:
  assumes "wf_storage st"
  shows "wf_storage (fst (postGroups st newId now userId body))"
  using assms wf_createGroup[OF assms]
  by (simp add: postGroups_def case_prod_unfold Let_def split: sum.splits option.splits)

lemma wf_handle: "wf_storage st \<Longrightarrow> wf_storage (handle st r)"
  by (cases r) (simp_all add: wf_postSignup wf_postGroups wf_postMessages)

lemma wf_run: "wf_storage st \<Longrightarrow> wf_storage (run st reqs)"
  unfolding run_def by (induction reqs arbitrary: st) (simp_all add: wf_handle)

lemma timestamps_positive_newStorage: "timestamps_positive newStorage"
  by (simp add: timestamps_positive_def newStorage_def)

lemma timestamps_positive_createMessage:
  assumes "timestamps_positive st" "0 < now"
  shows "timestamps_positive (fst (createMessage st newId now userId ins))"
  using assms
  by (simp add: timestamps_positive_def createMessage_def Let_def list_all_update)

subsection \<open>The conversation list\<close>

lemma set_set_add [simp]: "set (set_add x xs) = insert x (set xs)"
  by (auto simp: set_add_def)

lemma distinct_set_add [simp]: "distinct (set_add x xs) = distinct xs"
  by (auto simp: set_add_def)

lemma set_collectOther:
  "set (collectOther u acc m) = set acc \<union> {other. counterpart_of u m other}"
proof (cases "recipientId m")
  case None
  then show ?thesis by (auto simp: collectOther_def counterpart_of_def truthy_def)
next
  case (Some r)
  then show ?thesis by (auto simp: collectOther_def counterpart_of_def truthy_def)
qed

lemma distinct_collectOther: "distinct acc \<Longrightarrow> distinct (collectOther u acc m)"
  by (auto simp: collectOther_def split: option.splits)

lemma set_foldl_collectOther:
  "set (foldl (collectOther u) acc ms) = set acc \<union> {other. \<exists>m \<in> set ms. counterpart_of u m other}"
  by (induction ms arbitrary: acc) (auto simp: set_collectOther)

lemma distinct_foldl_collectOther:
  "distinct acc \<Longrightarrow> distinct (foldl (collectOther u) acc ms)"
  by (induction ms arbitrary: acc) (auto simp: distinct_collectOther)

lemma set_otherUserIds: "set (otherUserIds st u) = counterparts st u"
  by (simp add: otherUserIds_def set_foldl_collectOther counterparts_def)

lemma distinct_otherUserIds: "distinct (otherUserIds st u)"
  by (simp add: otherUserIds_def distinct_foldl_collectOther)

lemma map_map_filter_eq:
  assumes "\<And>x y. x \<in> set xs \<Longrightarrow> f x = Some y \<Longrightarrow> g y = h x"
  shows "map g (List.map_filter f xs) = map h (filter (\<lambda>x. f x \<noteq> None) xs)"
  using assms by (induction xs) (auto simp: List.map_filter_simps split: option.splits)

lemma wf_getUser_id: "wf_storage st \<Longrightarrow> getUser st k = Some x \<Longrightarrow> user_id x = k"
  by (auto simp: wf_storage_def getUser_def list_all_iff dest!: map_of_SomeD)

lemma wf_getGroupWithMembers_id:
  "wf_storage st \<Longrightarrow> getGroupWithMembers st k = Some g \<Longrightarrow> group_id (gwm_group g) = k"
  by (auto simp: wf_storage_def getGroupWithMembers_def Let_def list_all_iff
        split: option.splits dest!: map_of_SomeD)

lemma directConversations_ids:
  assumes "wf_storage st"
  shows "map conv_id (directConversations st u) =
           map (\<lambda>other. (direct, Some other))
             (filter (\<lambda>other. getUser st other \<noteq> None) (otherUserIds st u))"
proof -
  let ?F = "\<lambda>otherUserId.
              case getUser st otherUserId of
                None \<Rightarrow> None
              | Some ou \<Rightarrow>
                  Some \<lparr>conv_type = direct, otherUser = Some ou, conv_group = None,
                        lastMessage = first_or_null (sort_key (\<lambda>m. - createdAt m)
                            (filter (\<lambda>msg. \<not> truthy (groupId msg) \<and> between u otherUserId msg)
                               (map snd (messages st)))),
                        unreadCount = 0\<rparr>"
  have 1: "\<And>x y. ?F x = Some y \<Longrightarrow> conv_id y = (direct, Some x)"
    using wf_getUser_id[OF assms]
    by (auto simp: conv_id_def conv_key_def split: option.splits)
  have 2: "\<And>x. (?F x \<noteq> None) = (getUser st x \<noteq> None)"
    by (auto split: option.splits)
  show ?thesis
    unfolding directConversations_def Let_def
    by (subst map_map_filter_eq[where h = "\<lambda>other. (direct, Some other)"]) (simp_all only: 1 2)
qed

lemma wf_group_record:
  assumes "wf_storage st" "kv \<in> set (groupMembers st)"
  shows "getGroupWithMembers st (fst kv) \<noteq> None"
proof -
  have "fst kv \<in> fst ` set (groups st)" using assms by (auto simp: wf_storage_def)
  then have "map_of (groups st) (fst kv) \<noteq> None"
    by (simp add: map_of_eq_None_iff)
  then show ?thesis by (simp add: getGroupWithMembers_None getGroup_def)
qed

lemma getGroupsForUser_ids:
  assumes "wf_storage st"
  shows "map (\<lambda>g. group_id (gwm_group g)) (getGroupsForUser st u) =
           map fst (filter (\<lambda>kv. u \<in> set (snd kv)) (groupMembers st))"
proof -
  let ?G = "\<lambda>(gid, ids). if u \<in> set ids then getGroupWithMembers st gid else None"
  have 1: "\<And>x y. ?G x = Some y \<Longrightarrow> group_id (gwm_group y) = fst x"
    using wf_getGroupWithMembers_id[OF assms] by (auto split: if_splits)
  have 2: "filter (\<lambda>x. ?G x \<noteq> None) (groupMembers st) =
           filter (\<lambda>kv. u \<in> set (snd kv)) (groupMembers st)"
    using wf_group_record[OF assms] by (intro filter_cong) (auto split: if_splits)
  show ?thesis
    unfolding getGroupsForUser_def
    by (subst map_map_filter_eq[where h = fst]) (simp_all only: 1 2)
qed

lemma groupConversations_ids:
  assumes "wf_storage st"
  shows "map conv_id (groupConversations st u) =
           map (\<lambda>kv. (groupConv, Some (fst kv)))
             (filter (\<lambda>kv. u \<in> set (snd kv)) (groupMembers st))"
proof -
  have "map conv_id (groupConversations st u) =
          map (\<lambda>g. (groupConv, Some g)) (map (\<lambda>g. group_id (gwm_group g)) (getGroupsForUser st u))"
    by (simp add: groupConversations_def Let_def conv_id_def conv_key_def comp_def)
  then show ?thesis unfolding getGroupsForUser_ids[OF assms] by (simp add: comp_def)
qed

lemma conversations_ids:
  "mset (map conv_id (getConversationsForUser st u)) =
   mset (map conv_id (directConversations st u)) + mset (map conv_id (groupConversations st u))"
  by (simp add: getConversationsForUser_def)


lemma set_conversation_ids:
  assumes "wf_storage st"
  shows "set (map conv_id (getConversationsForUser st u)) =
           (\<lambda>other. (direct, Some other)) ` {other \<in> counterparts st u. getUser st other \<noteq> None} \<union>
           (\<lambda>g. (groupConv, Some g)) ` memberGroups st u"
proof -
  have g: "fst ` {kv \<in> set (groupMembers st). u \<in> set (snd kv)} = memberGroups st u"
  proof -
    have d: "distinct (map fst (groupMembers st))" using assms by (simp add: wf_storage_def)
    show ?thesis
      unfolding memberGroups_def using map_of_eq_Some_iff[OF d] by force
  qed
  have "set (map conv_id (getConversationsForUser st u)) =
          set_mset (mset (map conv_id (getConversationsForUser st u)))"
    by simp
  also have "\<dots> = set (map conv_id (directConversations st u)) \<union>
                   set (map conv_id (groupConversations st u))"
    unfolding conversations_ids by simp
  also have "\<dots> = (\<lambda>other. (direct, Some other)) ` {other \<in> counterparts st u. getUser st other \<noteq> None} \<union>
           (\<lambda>g. (groupConv, Some g)) ` memberGroups st u"
    unfolding directConversations_ids[OF assms] groupConversations_ids[OF assms]
    by (simp add: set_otherUserIds g[symmetric] image_image)
  finally show ?thesis .
qed

lemma distinct_conversation_ids:
  assumes "wf_storage st"
  shows "distinct (map conv_id (getConversationsForUser st u))"
proof -
  have d: "distinct (map fst (groupMembers st))" using assms by (simp add: wf_storage_def)
  have a: "distinct (map conv_id (directConversations st u))"
    unfolding directConversations_ids[OF assms]
    by (simp add: distinct_map distinct_otherUserIds inj_on_def)
  have "distinct (map fst (filter (\<lambda>kv. u \<in> set (snd kv)) (groupMembers st)))"
    using d by (rule distinct_map_filter)
  then have "distinct (map (\<lambda>g. (groupConv, Some g))
                 (map fst (filter (\<lambda>kv. u \<in> set (snd kv)) (groupMembers st))))"
    by (subst distinct_map) (simp add: inj_on_def)
  then have b: "distinct (map conv_id (groupConversations st u))"
    unfolding groupConversations_ids[OF assms] by (simp add: comp_def)
  have c: "set (map conv_id (directConversations st u)) \<inter>
           set (map conv_id (groupConversations st u)) = {}"
    unfolding directConversations_ids[OF assms] groupConversations_ids[OF assms] by auto
  have "distinct (map conv_id (directConversations st u) @ map conv_id (groupConversations st u))"
    using a b c by simp
  moreover have "mset (map conv_id (getConversationsForUser st u)) =
                 mset (map conv_id (directConversations st u) @ map conv_id (groupConversations st u))"
    unfolding conversations_ids by simp
  ultimately show ?thesis by (metis mset_eq_imp_distinct_iff)
qed

lemma sorted_conversations:
  "sorted_wrt (\<lambda>a b. convTime b \<le> convTime a) (getConversationsForUser st u)"
proof -
  have "sorted (map (\<lambda>c. - convTime c) (getConversationsForUser st u))"
    unfolding getConversationsForUser_def by (rule sorted_sort_key)
  then show ?thesis by (simp add: sorted_map)
qed

lemma null_conversations_last:
  assumes "i < j" "j < length (getConversationsForUser st u)"
    and "lastMessage (getConversationsForUser st u ! i) = None"
    and "lastMessage (getConversationsForUser st u ! j) = Some m"
  shows "createdAt m \<le> 0"
proof -
  have "convTime (getConversationsForUser st u ! j) \<le> convTime (getConversationsForUser st u ! i)"
    using sorted_conversations[of st u] assms(1,2) by (simp add: sorted_wrt_iff_nth_less)
  then show ?thesis using assms(3,4) by (simp add: convTime_def)
qed

lemma first_or_null_mem: "first_or_null xs = Some x \<Longrightarrow> x \<in> set xs"
  by (cases xs) (simp_all add: first_or_null_def)

lemma lastMessage_direct:
  assumes "c \<in> set (directConversations st u)" "lastMessage c = Some m"
  shows "m \<in> snd ` set (messages st)"
  using assms
  by (auto simp: directConversations_def Let_def set_map_filter split: option.splits
        dest!: first_or_null_mem)

lemma lastMessage_group:
  assumes "c \<in> set (groupConversations st u)" "lastMessage c = Some m"
  shows "m \<in> snd ` set (messages st)"
  using assms by (auto simp: groupConversations_def Let_def dest!: first_or_null_mem)

lemma lastMessage_stored:
  assumes "c \<in> set (getConversationsForUser st u)" "lastMessage c = Some m"
  shows "m \<in> snd ` set (messages st)"
  using assms lastMessage_direct[of c st u m] lastMessage_group[of c st u m]
  by (auto simp: getConversationsForUser_def)

lemma null_conversations_after:
  assumes "timestamps_positive st" "i < j" "j < length (getConversationsForUser st u)"
    and "lastMessage (getConversationsForUser st u ! i) = None"
  shows "lastMessage (getConversationsForUser st u ! j) = None"
proof (cases "lastMessage (getConversationsForUser st u ! j)")
  case None
  then show ?thesis .
next
  case (Some m)
  have "getConversationsForUser st u ! j \<in> set (getConversationsForUser st u)"
    using assms(3) by simp
  then have "m \<in> snd ` set (messages st)" using Some by (rule lastMessage_stored)
  then have "0 < createdAt m" using assms(1) by (auto simp: timestamps_positive_def list_all_iff)
  moreover have "createdAt m \<le> 0" using assms(2,3,4) Some by (rule null_conversations_last)
  ultimately show ?thesis by simp
qed

subsection \<open>The concrete store\<close>

lemma ex_createMessage:
  "createMessage ex_storage ''m9'' 40 ''u1'' ex_to_bob =
     (ex_storage\<lparr>messages := messages ex_storage @
        [(''m9'', \<lparr>msg_id = ''m9'', senderId = ''u1'', recipientId = Some ''u2'', groupId = None,
                   content = ''yo'', createdAt = 40\<rparr>)]\<rparr>,
      \<lparr>msg_id = ''m9'', senderId = ''u1'', recipientId = Some ''u2'', groupId = None,
        content = ''yo'', createdAt = 40\<rparr>)"
  by (simp add: createMessage_def Let_def ex_to_bob_def or_null_def truthy_def ex_storage_def)

lemma ex_post_to_nobody:
  "postMessages ex_storage ex_clients ''m9'' 40 ''u1'' ex_to_nobody =
     (ex_storage\<lparr>messages := messages ex_storage @
        [(''m9'', \<lparr>msg_id = ''m9'', senderId = ''u1'', recipientId = Some ''nobody'',
                   groupId = None, content = ''hello?'', createdAt = 40\<rparr>)]\<rparr>,
      Error 500 ''Failed to get recipient data'', [])"
  by (simp add: route_defs ex_defs ex_to_nobody_def)

lemma ex_post_to_nogroup:
  "postMessages ex_storage ex_clients ''m9'' 40 ''u1'' ex_to_nogroup =
     (ex_storage\<lparr>messages := messages ex_storage @
        [(''m9'', \<lparr>msg_id = ''m9'', senderId = ''u1'', recipientId = None,
                   groupId = Some ''nogroup'', content = ''hello?'', createdAt = 40\<rparr>)]\<rparr>,
      Error 500 ''Failed to get group data'', [])"
  by (simp add: route_defs ex_defs ex_to_nogroup_def)

lemma ex_post_to_bob:
  "postMessages ex_storage ex_clients ''m9'' 40 ''u1'' ex_to_bob =
     (ex_storage\<lparr>messages := messages ex_storage @
        [(''m9'', \<lparr>msg_id = ''m9'', senderId = ''u1'', recipientId = Some ''u2'',
                   groupId = None, content = ''yo'', createdAt = 40\<rparr>)]\<rparr>,
      Json (JObj
        [(''id'', JStr ''m9''), (''senderId'', JStr ''u1''),
         (''recipientId'', JStr ''u2''), (''groupId'', JNull),
         (''content'', JStr ''yo''), (''createdAt'', JNum 40),
         (''sender'', JObj [(''id'', JStr ''u1''), (''username'', JStr ''Alice'')]),
         (''recipient'', JObj [(''id'', JStr ''u2''), (''username'', JStr ''bob'')])]),
      map (\<lambda>c. (c, JObj
        [(''id'', JStr ''m9''), (''senderId'', JStr ''u1''),
         (''recipientId'', JStr ''u2''), (''groupId'', JNull),
         (''content'', JStr ''yo''), (''createdAt'', JNum 40),
         (''sender'', JObj [(''id'', JStr ''u1''), (''username'', JStr ''Alice'')]),
         (''recipient'', JObj [(''id'', JStr ''u2''), (''username'', JStr ''bob'')])]))
        [\<lparr>client_id = 1, readyState = OPEN\<rparr>, \<lparr>client_id = 3, readyState = OPEN\<rparr>])"
  by (simp add: route_defs ex_defs ex_to_bob_def ex_clients_def)

lemma ex_post_to_team:
  "postMessages ex_storage ex_clients ''m9'' 40 ''u1'' ex_to_team =
     (ex_storage\<lparr>messages := messages ex_storage @
        [(''m9'', \<lparr>msg_id = ''m9'', senderId = ''u1'', recipientId = None,
                   groupId = Some ''g1'', content = ''all hands'', createdAt = 40\<rparr>)]\<rparr>,
      Json (JObj
        [(''id'', JStr ''m9''), (''senderId'', JStr ''u1''),
         (''recipientId'', JNull), (''groupId'', JStr ''g1''),
         (''content'', JStr ''all hands''), (''createdAt'', JNum 40),
         (''sender'', JObj [(''id'', JStr ''u1''), (''username'', JStr ''Alice'')]),
         (''group'', JObj
            [(''id'', JStr ''g1''), (''name'', JStr ''team''),
             (''createdBy'', JStr ''u1''), (''createdAt'', JNum 1),
             (''members'', JArr
                [JObj [(''id'', JStr ''u1''), (''username'', JStr ''Alice'')],
                 JObj [(''id'', JStr ''u3''), (''username'', JStr ''MALI'')]]),
             (''memberCount'', JNum 2)])]),
      map (\<lambda>c. (c, JObj
        [(''id'', JStr ''m9''), (''senderId'', JStr ''u1''),
         (''recipientId'', JNull), (''groupId'', JStr ''g1''),
         (''content'', JStr ''all hands''), (''createdAt'', JNum 40),
         (''sender'', JObj [(''id'', JStr ''u1''), (''username'', JStr ''Alice'')]),
         (''group'', JObj
            [(''id'', JStr ''g1''), (''name'', JStr ''team''),
             (''createdBy'', JStr ''u1''), (''createdAt'', JNum 1),
             (''members'', JArr
                [JObj [(''id'', JStr ''u1''), (''username'', JStr ''Alice'')],
                 JObj [(''id'', JStr ''u3''), (''username'', JStr ''MALI'')]]),
             (''memberCount'', JNum 2)])]))
        [\<lparr>client_id = 1, readyState = OPEN\<rparr>, \<lparr>client_id = 3, readyState = OPEN\<rparr>])"
  by (simp add: route_defs ex_defs ex_to_team_def ex_clients_def)

lemma ex_search: "searchUsers ex_storage ''ali'' = [ex_alice, ex_carol, ex_dan]"
  by (simp add: searchUsers_def toLowerCase_def lower_char_def upper_letters_def lower_letters_def ex_defs)


lemma ex_all_users: "map snd (users ex_storage) = [ex_alice, ex_bob, ex_carol, ex_dan]"
  by (simp add: ex_storage_def)

lemma wf_ex_storage: "wf_storage ex_storage"
  by (simp add: wf_storage_def ex_defs)

lemma wf_ex_orphaned: "wf_storage ex_orphaned"
  unfolding ex_orphaned_def by (intro wf_run wf_newStorage)

lemma ex_orphaned_eq:
  "ex_orphaned =
     \<lparr>users = [(''u1'', ex_alice)],
      messages = [(''m1'', \<lparr>msg_id = ''m1'', senderId = ''u1'', recipientId = Some ''ghost'',
                             groupId = None, content = ''anyone?'', createdAt = 30\<rparr>)],
      groups = [], groupMembers = []\<rparr>"
  by (simp add: ex_orphaned_def run_def newStorage_def postSignup_def insertUserSchema_def
        getUserByUsername_def createUser_def postMessages_storage insertMessageSchema_def
        truthy_def createMessage_def or_null_def Let_def ex_alice_def)

lemma ex_conversations:
  "getConversationsForUser ex_storage ''u1'' =
     [\<lparr>conv_type = direct, otherUser = Some ex_bob, conv_group = None,
       lastMessage = Some ex_hey, unreadCount = 0\<rparr>,
      \<lparr>conv_type = groupConv, otherUser = None,
       conv_group = Some \<lparr>gwm_group = ex_team, members = [ex_alice, ex_carol], memberCount = 2\<rparr>,
       lastMessage = Some ex_team_msg, unreadCount = 0\<rparr>,
      \<lparr>conv_type = groupConv, otherUser = None,
       conv_group = Some \<lparr>gwm_group = ex_quiet, members = [ex_bob, ex_alice], memberCount = 2\<rparr>,
       lastMessage = None, unreadCount = 0\<rparr>]"
  by (simp add: conv_defs ex_defs)

lemma ex_orphaned_conversations: "getConversationsForUser ex_orphaned ''u1'' = []"
  unfolding ex_orphaned_eq by (simp add: conv_defs)

lemma ex_orphaned_counterpart: "''ghost'' \<in> counterparts ex_orphaned ''u1''"
  unfolding ex_orphaned_eq by (simp add: counterparts_def counterpart_of_def truthy_def)


lemma ex_conversation_ids:
  "map conv_id (getConversationsForUser ex_storage ''u1'') =
     [(direct, Some ''u2''), (groupConv, Some ''g1''), (groupConv, Some ''g2'')]"
  unfolding ex_conversations by (simp add: conv_id_def conv_key_def ex_defs)

lemma timestamps_positive_ex: "timestamps_positive ex_storage"
  by (simp add: timestamps_positive_def ex_defs)

section \<open>Properties\<close>

text \<open>
  C1 (as the claim states it, refuted). At a recipient that names no user, and at a group
  that names no group, the route does not answer \<open>NotFound\<close>, and the log has the new
  message at its end.
\<close>

theorem C1_not_found_counterexample:
  "getUser ex_storage ''nobody'' = None \<and>
   \<not> isNotFound (fst (snd (postMessages ex_storage ex_clients ''m9'' 40 ''u1'' ex_to_nobody))) \<and>
   messages (fst (postMessages ex_storage ex_clients ''m9'' 40 ''u1'' ex_to_nobody)) =
     messages ex_storage @
       [(''m9'', \<lparr>msg_id = ''m9'', senderId = ''u1'', recipientId = Some ''nobody'',
                  groupId = None, content = ''hello?'', createdAt = 40\<rparr>)] \<and>
   getGroup ex_storage ''nogroup'' = None \<and>
   \<not> isNotFound (fst (snd (postMessages ex_storage ex_clients ''m9'' 40 ''u1'' ex_to_nogroup))) \<and>
   messages (fst (postMessages ex_storage ex_clients ''m9'' 40 ''u1'' ex_to_nogroup)) =
     messages ex_storage @
       [(''m9'', \<lparr>msg_id = ''m9'', senderId = ''u1'', recipientId = None,
                  groupId = Some ''nogroup'', content = ''hello?'', createdAt = 40\<rparr>)]"
  unfolding ex_post_to_nobody ex_post_to_nogroup
  by (simp add: isNotFound_def getUser_def getGroup_def ex_storage_def)

text \<open>
  C1 (amended). A body that passes the schema, from a sender who has a user record: when
  its \<open>recipientId\<close> names no user the route answers 500 \<open>Failed to get recipient data\<close>, when
  its \<open>groupId\<close> names no group it answers 500 \<open>Failed to get group data\<close>, and in both cases
  nothing is sent to any connection.
\<close>

theorem C1_unknown_addressee_fails:
  assumes "insertMessageSchema body = Inr body" and "getUser st userId = Some s"
  shows "(truthy (im_recipientId body) \<and> Option.bind (im_recipientId body) (getUser st) = None \<longrightarrow>
            snd (postMessages st clients newId now userId body) =
              (Error 500 ''Failed to get recipient data'', [])) \<and>
         (truthy (im_groupId body) \<and> Option.bind (im_groupId body) (getGroup st) = None \<longrightarrow>
            snd (postMessages st clients newId now userId body) =
              (Error 500 ''Failed to get group data'', []))"
proof (intro conjI impI)
  let ?st = "fst (createMessage st newId now userId body)"
  let ?msg = "snd (createMessage st newId now userId body)"
  have sid: "senderId ?msg = userId" and rid: "recipientId ?msg = or_null (im_recipientId body)"
    and gid: "groupId ?msg = or_null (im_groupId body)"
    by (simp_all add: createMessage_def Let_def)
  have x: "truthy (im_recipientId body) \<noteq> truthy (im_groupId body)"
    using assms(1) by (auto simp: insertMessageSchema_def split: if_splits)
  {
    assume a: "truthy (im_recipientId body) \<and> Option.bind (im_recipientId body) (getUser st) = None"
    then have "or_null (im_recipientId body) = im_recipientId body" by (simp add: or_null_def)
    with a have "enrichMessage ?st ?msg = Inl ''Failed to get recipient data''"
      using assms(2) by (simp add: enrichMessage_def sid rid Let_def)
    then show "snd (postMessages st clients newId now userId body) =
              (Error 500 ''Failed to get recipient data'', [])"
      by (simp add: postMessages_accepted[OF assms(1)])
  }
  {
    assume a: "truthy (im_groupId body) \<and> Option.bind (im_groupId body) (getGroup st) = None"
    then have g: "or_null (im_groupId body) = im_groupId body" by (simp add: or_null_def)
    from a x have nr: "\<not> truthy (im_recipientId body)" by simp
    have "Option.bind (im_groupId body) (getGroupWithMembers st) = None"
      using a by (cases "im_groupId body") (simp_all add: getGroupWithMembers_None)
    with a nr have "enrichMessage ?st ?msg = Inl ''Failed to get group data''"
      using assms(2) by (simp add: enrichMessage_def sid rid gid g Let_def)
    then show "snd (postMessages st clients newId now userId body) =
              (Error 500 ''Failed to get group data'', [])"
      by (simp add: postMessages_accepted[OF assms(1)])
  }
qed

theorem C1_unknown_addressee_fails_witness:
  "snd (postMessages ex_storage ex_clients ''m9'' 40 ''u1'' ex_to_nobody) =
     (Error 500 ''Failed to get recipient data'', []) \<and>
   snd (postMessages ex_storage ex_clients ''m9'' 40 ''u1'' ex_to_nogroup) =
     (Error 500 ''Failed to get group data'', [])"
proof -
  have s: "getUser ex_storage ''u1'' = Some ex_alice" by (simp add: getUser_def ex_storage_def)
  have v1: "insertMessageSchema ex_to_nobody = Inr ex_to_nobody"
    and v2: "insertMessageSchema ex_to_nogroup = Inr ex_to_nogroup"
    by (simp_all add: insertMessageSchema_def truthy_def ex_to_nobody_def ex_to_nogroup_def)
  have h1: "truthy (im_recipientId ex_to_nobody) \<and>
            Option.bind (im_recipientId ex_to_nobody) (getUser ex_storage) = None"
    by (simp add: truthy_def ex_to_nobody_def getUser_def ex_storage_def)
  have h2: "truthy (im_groupId ex_to_nogroup) \<and>
            Option.bind (im_groupId ex_to_nogroup) (getGroup ex_storage) = None"
    by (simp add: truthy_def ex_to_nogroup_def getGroup_def ex_storage_def)
  have a: "snd (postMessages ex_storage ex_clients ''m9'' 40 ''u1'' ex_to_nobody) =
     (Error 500 ''Failed to get recipient data'', [])"
    by (rule C1_unknown_addressee_fails[OF v1 s, THEN conjunct1, THEN mp, OF h1])
  have b: "snd (postMessages ex_storage ex_clients ''m9'' 40 ''u1'' ex_to_nogroup) =
     (Error 500 ''Failed to get group data'', [])"
    by (rule C1_unknown_addressee_fails[OF v2 s, THEN conjunct2, THEN mp, OF h2])
  from a b show ?thesis by (rule conjI)
qed

text \<open>
  C2 (the code at a blank name). \<open>POST /api/groups\<close> with the name of three spaces: the
  schema only asks for a non-empty \<open>memberIds\<close>, so the group and its member set are stored
  and the group is returned. The client's dialog refuses the same name before any request
  is sent.
\<close>

theorem C2_blank_group_name_is_stored:
  "postGroups ex_storage ''g9'' 50 ''u1'' \<lparr>ig_name = ''   '', memberIds = [''u2'', ''u2'']\<rparr> =
     (ex_storage\<lparr>
        groups := groups ex_storage @
          [(''g9'', \<lparr>group_id = ''g9'', group_name = ''   '', createdBy = ''u1'',
                     group_createdAt = 50\<rparr>)],
        groupMembers := groupMembers ex_storage @ [(''g9'', [''u1'', ''u2''])]\<rparr>,
      Json (JObj
        [(''id'', JStr ''g9''), (''name'', JStr ''   ''),
         (''createdBy'', JStr ''u1''), (''createdAt'', JNum 50),
         (''members'', JArr
            [JObj [(''id'', JStr ''u1''), (''username'', JStr ''Alice'')],
             JObj [(''id'', JStr ''u2''), (''username'', JStr ''bob'')]]),
         (''memberCount'', JNum 2)])) \<and>
   handleSubmit ''   '' [''u2'', ''u2''] = Inl ''Please enter a group name''"
  by (simp add: postGroups_def insertGroupSchema_def createGroup_def new_Set_def set_add_def
        route_defs ex_defs handleSubmit_def trim_def is_space_def)

text \<open>
  C3. When \<open>POST /api/messages\<close> answers with a payload \<open>p\<close>, then \<open>p\<close> is the enriched
  message: the fields of the created message with the sanitized sender embedded, followed
  by the sanitized recipient for a direct message, or by the group with its sanitized
  members for a group message. The sockets the route sends to are exactly those of
  \<open>wss.clients\<close> whose \<open>readyState\<close> is \<open>OPEN\<close>, in the set's order, whoever the sender, the
  recipient or the group's members are; each of them gets \<open>p\<close>; a socket that is connecting,
  closing or closed gets nothing.
\<close>

theorem C3_broadcast_to_open_connections:
  assumes "postMessages st clients newId now userId body = (st', Json p, sent)"
  shows "map fst sent = filter (\<lambda>c. readyState c = OPEN) clients \<and>
         map snd sent = replicate (length sent) p \<and>
         (\<forall>c. (c, p) \<in> set sent \<longleftrightarrow> c \<in> set clients \<and> readyState c = OPEN) \<and>
         (\<exists>fs. p = JObj fs \<and> map_of fs ''id'' = Some (JStr newId) \<and>
               map_of fs ''senderId'' = Some (JStr userId) \<and>
               map_of fs ''content'' = Some (JStr (im_content body))) \<and>
         (\<exists>s. getUser st' userId = Some s \<and>
            ((\<exists>r ru. im_recipientId body = Some r \<and> r \<noteq> [] \<and> getUser st' r = Some ru \<and>
                p = JObj (wireMessage newId userId (Some r) None (im_content body) now s @
                          [(''recipient'', publicUser ru)])) \<or>
             (\<exists>g grp. im_groupId body = Some g \<and> g \<noteq> [] \<and> getGroup st' g = Some grp \<and>
                p = JObj (wireMessage newId userId None (Some g) (im_content body) now s @
                          [(''group'', publicGroup grp (getGroupMembers st' g))]))))"
proof -
  let ?msg = "snd (createMessage st newId now userId body)"
  have s: "sent = broadcast clients p" and e: "enrichMessage st' ?msg = Inr p"
    and ok: "insertMessageSchema body = Inr body"
    using postMessages_Json[OF assms] by blast+
  have m: "msg_id ?msg = newId" "senderId ?msg = userId" "content ?msg = im_content body"
    "createdAt ?msg = now" "recipientId ?msg = or_null (im_recipientId body)"
    "groupId ?msg = or_null (im_groupId body)"
    by (simp_all add: createMessage_def Let_def)
  have x: "truthy (im_recipientId body) \<noteq> truthy (im_groupId body)"
    using ok by (auto simp: insertMessageSchema_def split: if_splits)
  then have x': "truthy (recipientId ?msg) \<noteq> truthy (groupId ?msg)" by (simp add: m)
  have a: "\<exists>fs. p = JObj fs \<and> map_of fs ''id'' = Some (JStr newId) \<and>
               map_of fs ''senderId'' = Some (JStr userId) \<and>
               map_of fs ''content'' = Some (JStr (im_content body))"
    using enrichMessage_fields[OF e] unfolding m by blast
  have b: "map fst sent = filter (\<lambda>c. readyState c = OPEN) clients \<and>
         map snd sent = replicate (length sent) p \<and>
         (\<forall>c. (c, p) \<in> set sent \<longleftrightarrow> c \<in> set clients \<and> readyState c = OPEN)"
    unfolding s broadcast_def by (auto simp: comp_def map_replicate_const)
  have on: "\<And>x y. or_null x = Some y \<Longrightarrow> x = Some y"
    by (auto simp: or_null_def split: if_splits)
  have nn: "\<And>x y. or_null x = Some y \<Longrightarrow> y \<noteq> [] \<Longrightarrow> truthy x"
    by (auto simp: or_null_def split: if_splits)
  from enrichMessage_wire[OF e x'] obtain sd where sd: "getUser st' userId = Some sd"
    and cs: "(\<exists>r ru. or_null (im_recipientId body) = Some r \<and> r \<noteq> [] \<and> getUser st' r = Some ru \<and>
               p = JObj (wireMessage newId userId (Some r) (or_null (im_groupId body))
                          (im_content body) now sd @ [(''recipient'', publicUser ru)])) \<or>
            (\<exists>g grp. or_null (im_groupId body) = Some g \<and> g \<noteq> [] \<and> getGroup st' g = Some grp \<and>
               p = JObj (wireMessage newId userId (or_null (im_recipientId body)) (Some g)
                          (im_content body) now sd @
                        [(''group'', publicGroup grp (getGroupMembers st' g))]))"
    unfolding m by blast
  from cs have c: "(\<exists>r ru. im_recipientId body = Some r \<and> r \<noteq> [] \<and> getUser st' r = Some ru \<and>
                p = JObj (wireMessage newId userId (Some r) None (im_content body) now sd @
                          [(''recipient'', publicUser ru)])) \<or>
             (\<exists>g grp. im_groupId body = Some g \<and> g \<noteq> [] \<and> getGroup st' g = Some grp \<and>
                p = JObj (wireMessage newId userId None (Some g) (im_content body) now sd @
                          [(''group'', publicGroup grp (getGroupMembers st' g))]))"
  proof (elim disjE exE conjE)
    fix r ru
    assume h: "or_null (im_recipientId body) = Some r" "r \<noteq> []" "getUser st' r = Some ru"
      "p = JObj (wireMessage newId userId (Some r) (or_null (im_groupId body))
                          (im_content body) now sd @ [(''recipient'', publicUser ru)])"
    from h(1,2) have "truthy (im_recipientId body)" by (rule nn)
    with x have "or_null (im_groupId body) = None" by (simp add: or_null_def)
    with h on[OF h(1)] show ?thesis by auto
  next
    fix g grp
    assume h: "or_null (im_groupId body) = Some g" "g \<noteq> []" "getGroup st' g = Some grp"
      "p = JObj (wireMessage newId userId (or_null (im_recipientId body)) (Some g)
                          (im_content body) now sd @
                        [(''group'', publicGroup grp (getGroupMembers st' g))])"
    from h(1,2) have "truthy (im_groupId body)" by (rule nn)
    with x have "or_null (im_recipientId body) = None" by (simp add: or_null_def)
    with h on[OF h(1)] show ?thesis by auto
  qed
  from a b sd c show ?thesis by blast
qed


theorem C3_broadcast_to_open_connections_witness:
  "map fst (snd (snd (postMessages ex_storage ex_clients ''m9'' 40 ''u1'' ex_to_bob))) =
     [\<lparr>client_id = 1, readyState = OPEN\<rparr>, \<lparr>client_id = 3, readyState = OPEN\<rparr>] \<and>
   map fst (snd (snd (postMessages ex_storage ex_clients ''m9'' 40 ''u1'' ex_to_team))) =
     [\<lparr>client_id = 1, readyState = OPEN\<rparr>, \<lparr>client_id = 3, readyState = OPEN\<rparr>]"
proof -
  have f: "filter (\<lambda>c. readyState c = OPEN) ex_clients =
             [\<lparr>client_id = 1, readyState = OPEN\<rparr>, \<lparr>client_id = 3, readyState = OPEN\<rparr>]"
    by (simp add: ex_clients_def)
  have a: "map fst (snd (snd (postMessages ex_storage ex_clients ''m9'' 40 ''u1'' ex_to_bob))) =
             filter (\<lambda>c. readyState c = OPEN) ex_clients"
    unfolding ex_post_to_bob snd_conv
    by (rule C3_broadcast_to_open_connections[OF ex_post_to_bob, THEN conjunct1])
  have b: "map fst (snd (snd (postMessages ex_storage ex_clients ''m9'' 40 ''u1'' ex_to_team))) =
             filter (\<lambda>c. readyState c = OPEN) ex_clients"
    unfolding ex_post_to_team snd_conv
    by (rule C3_broadcast_to_open_connections[OF ex_post_to_team, THEN conjunct1])
  from a b show ?thesis unfolding f by (rule conjI)
qed

text \<open>
  C4 (as the claim states it, refuted). In a store reached through the routes, user
  \<open>u1\<close> has sent a direct message to \<open>ghost\<close>, an id without a user record: \<open>ghost\<close> is a
  direct counterpart of \<open>u1\<close>, and the conversation list of \<open>u1\<close> is empty.
\<close>

theorem C4_orphan_counterpart_counterexample:
  "wf_storage ex_orphaned \<and> ''ghost'' \<in> counterparts ex_orphaned ''u1'' \<and>
   getConversationsForUser ex_orphaned ''u1'' = []"
  using wf_ex_orphaned ex_orphaned_counterpart ex_orphaned_conversations by (intro conjI)

text \<open>
  C4 (amended). In a well-formed store, the conversation list of a user holds no two
  conversations of the same kind about the same identity; its direct conversations are
  about exactly the direct counterparts of the user that have a user record; its group
  conversations are about exactly the groups the user belongs to; it is sorted descending
  by \<open>convTime\<close>, the creation time of \<open>lastMessage\<close> or zero when \<open>lastMessage\<close> is null; and,
  creation times being positive, a conversation without a message comes after every
  conversation that has one.
\<close>

theorem C4_conversation_list:
  assumes "wf_storage st"
  shows "distinct (map conv_id (getConversationsForUser st u)) \<and>
         {k. \<exists>c \<in> set (getConversationsForUser st u). conv_id c = (direct, Some k)} =
           {other \<in> counterparts st u. getUser st other \<noteq> None} \<and>
         {k. \<exists>c \<in> set (getConversationsForUser st u). conv_id c = (groupConv, Some k)} =
           memberGroups st u \<and>
         (\<forall>c \<in> set (getConversationsForUser st u). conv_key c \<noteq> None) \<and>
         sorted_wrt (\<lambda>a b. convTime b \<le> convTime a) (getConversationsForUser st u) \<and>
         (\<forall>i j m. i < j \<and> j < length (getConversationsForUser st u) \<and>
             lastMessage (getConversationsForUser st u ! i) = None \<and>
             lastMessage (getConversationsForUser st u ! j) = Some m \<longrightarrow> createdAt m \<le> 0) \<and>
         (timestamps_positive st \<longrightarrow>
            (\<forall>i j. i < j \<and> j < length (getConversationsForUser st u) \<and>
                lastMessage (getConversationsForUser st u ! i) = None \<longrightarrow>
                lastMessage (getConversationsForUser st u ! j) = None))"
proof (intro conjI)
  let ?cs = "getConversationsForUser st u"
  note ids = set_conversation_ids[OF assms, of u]
  show "distinct (map conv_id ?cs)" using assms by (rule distinct_conversation_ids)
  have m: "\<And>x. (\<exists>c \<in> set ?cs. conv_id c = x) = (x \<in> set (map conv_id ?cs))"
    by (metis (no_types) image_iff list.set_map)
  show "{k. \<exists>c \<in> set ?cs. conv_id c = (direct, Some k)} =
           {other \<in> counterparts st u. getUser st other \<noteq> None}"
    unfolding m ids by auto
  show "{k. \<exists>c \<in> set ?cs. conv_id c = (groupConv, Some k)} = memberGroups st u"
    unfolding m ids by auto
  show "\<forall>c \<in> set ?cs. conv_key c \<noteq> None"
  proof
    fix c assume "c \<in> set ?cs"
    then have "conv_id c \<in> set (map conv_id ?cs)" by simp
    then show "conv_key c \<noteq> None" unfolding ids by (auto simp: conv_id_def)
  qed
  show "sorted_wrt (\<lambda>a b. convTime b \<le> convTime a) ?cs" by (rule sorted_conversations)
  show "\<forall>i j m. i < j \<and> j < length ?cs \<and> lastMessage (?cs ! i) = None \<and>
             lastMessage (?cs ! j) = Some m \<longrightarrow> createdAt m \<le> 0"
    using null_conversations_last[of _ _ st u] by blast
  show "timestamps_positive st \<longrightarrow>
            (\<forall>i j. i < j \<and> j < length ?cs \<and> lastMessage (?cs ! i) = None \<longrightarrow>
                lastMessage (?cs ! j) = None)"
    using null_conversations_after[of st _ _ u] by blast
qed

theorem C4_conversation_list_witness:
  "timestamps_positive ex_storage \<and>
   map conv_id (getConversationsForUser ex_storage ''u1'') =
     [(direct, Some ''u2''), (groupConv, Some ''g1''), (groupConv, Some ''g2'')] \<and>
   map convTime (getConversationsForUser ex_storage ''u1'') = [12, 5, 0] \<and>
   map lastMessage (getConversationsForUser ex_storage ''u1'') =
     [Some ex_hey, Some ex_team_msg, None] \<and>
   {other \<in> counterparts ex_storage ''u1''. getUser ex_storage other \<noteq> None} = {''u2''} \<and>
   memberGroups ex_storage ''u1'' = {''g1'', ''g2''}"
proof -
  note inst = C4_conversation_list[OF wf_ex_storage, of "''u1''"]
  have m: "\<And>x. (\<exists>c \<in> set (getConversationsForUser ex_storage ''u1''). conv_id c = x) =
               (x \<in> set (map conv_id (getConversationsForUser ex_storage ''u1'')))"
    by (metis (no_types) image_iff list.set_map)
  have t: "map convTime (getConversationsForUser ex_storage ''u1'') = [12, 5, 0]"
    unfolding ex_conversations by (simp add: convTime_def ex_defs)
  have l: "map lastMessage (getConversationsForUser ex_storage ''u1'') =
             [Some ex_hey, Some ex_team_msg, None]"
    unfolding ex_conversations by simp
  have d: "{other \<in> counterparts ex_storage ''u1''. getUser ex_storage other \<noteq> None} = {''u2''}"
    unfolding inst[THEN conjunct2, THEN conjunct1, symmetric] m ex_conversation_ids by auto
  have g: "memberGroups ex_storage ''u1'' = {''g1'', ''g2''}"
    unfolding inst[THEN conjunct2, THEN conjunct2, THEN conjunct1, symmetric] m ex_conversation_ids
    by auto
  from timestamps_positive_ex ex_conversation_ids t l d g show ?thesis by (intro conjI)
qed

text \<open>
  C5. For users \<open>s\<close> and \<open>r\<close> and a stored direct message \<open>m\<close> from \<open>s\<close> to \<open>r\<close>, both
  of them having a user record: \<open>getMessagesBetweenUsers s r\<close> and
  \<open>getMessagesBetweenUsers r s\<close> are the same sequence; it contains \<open>m\<close> (with its sender
  and recipient attached); it is in ascending order of creation time; and messages of
  equal creation time keep the order in which the log holds them.
\<close>

theorem C5_messages_between_symmetric:
  assumes "m \<in> snd ` set (messages st)" and "senderId m = s" and "recipientId m = Some r"
    and "getUser st s = Some su" and "getUser st r = Some ru"
  shows "getMessagesBetweenUsers st s r = getMessagesBetweenUsers st r s \<and>
         \<lparr>mwu_message = m, sender = su, recipient = Some ru, mwu_group = None\<rparr>
           \<in> set (getMessagesBetweenUsers st s r) \<and>
         sorted (map createdAt (map mwu_message (getMessagesBetweenUsers st s r))) \<and>
         (\<forall>t. filter (\<lambda>x. createdAt x = t) (map mwu_message (getMessagesBetweenUsers st s r)) =
              filter (\<lambda>x. createdAt x = t)
                (filter (\<lambda>x. between s r x \<and> getUser st (senderId x) \<noteq> None \<and>
                              Option.bind (recipientId x) (getUser st) \<noteq> None)
                   (map snd (messages st))))"
proof (intro conjI allI)
  show "getMessagesBetweenUsers st s r = getMessagesBetweenUsers st r s"
    by (simp add: getMessagesBetweenUsers_def between_sym[of s r])
  have "between s r m" using assms(2,3) by (simp add: between_def)
  then show "\<lparr>mwu_message = m, sender = su, recipient = Some ru, mwu_group = None\<rparr>
           \<in> set (getMessagesBetweenUsers st s r)"
    using assms by (intro enriched_between_mem) auto
  show "sorted (map createdAt (map mwu_message (getMessagesBetweenUsers st s r)))"
    unfolding messages_of_between by (rule sorted_sort_key)
  show "\<And>t. filter (\<lambda>x. createdAt x = t) (map mwu_message (getMessagesBetweenUsers st s r)) =
              filter (\<lambda>x. createdAt x = t)
                (filter (\<lambda>x. between s r x \<and> getUser st (senderId x) \<noteq> None \<and>
                              Option.bind (recipientId x) (getUser st) \<noteq> None)
                   (map snd (messages st)))"
    unfolding messages_of_between by (rule sort_key_stable)
qed

theorem C5_messages_between_symmetric_witness:
  "getMessagesBetweenUsers ex_storage ''u1'' ''u2'' = getMessagesBetweenUsers ex_storage ''u2'' ''u1'' \<and>
   \<lparr>mwu_message = ex_hi, sender = ex_alice, recipient = Some ex_bob, mwu_group = None\<rparr>
     \<in> set (getMessagesBetweenUsers ex_storage ''u1'' ''u2'') \<and>
   sorted (map createdAt (map mwu_message (getMessagesBetweenUsers ex_storage ''u1'' ''u2'')))"
proof -
  have h1: "ex_hi \<in> snd ` set (messages ex_storage)" by (simp add: ex_storage_def)
  have h2: "senderId ex_hi = ''u1''" and h3: "recipientId ex_hi = Some ''u2''"
    by (simp_all add: ex_hi_def)
  have h4: "getUser ex_storage ''u1'' = Some ex_alice"
    and h5: "getUser ex_storage ''u2'' = Some ex_bob"
    by (simp_all add: getUser_def ex_storage_def)
  from C5_messages_between_symmetric[OF h1 h2 h3 h4 h5] show ?thesis by blast
qed

text \<open>
  C6. A message body whose \<open>recipientId\<close> and \<open>groupId\<close> are both set, or both unset
  (set meaning truthy, as the schema's \<open>refine\<close> tests them: neither \<open>null\<close> nor the empty
  string), is answered with the validation error and leaves the store as it was. And no
  request ever adds to the log a message that has both or neither of the two fields.
\<close>

theorem C6_invalid_addressing_rejected:
  "(truthy (im_recipientId body) = truthy (im_groupId body) \<longrightarrow>
      postMessages st clients newId now userId body =
        (st, Error 400 ''Message must have either recipientId or groupId, not both'', [])) \<and>
   (\<forall>m. m \<in> snd ` set (messages (fst (postMessages st clients newId now userId body))) \<longrightarrow>
        m \<notin> snd ` set (messages st) \<longrightarrow>
        (recipientId m = None) \<noteq> (groupId m = None) \<and>
        truthy (recipientId m) \<noteq> truthy (groupId m))"
proof (intro conjI allI impI)
  assume "truthy (im_recipientId body) = truthy (im_groupId body)"
  then have "insertMessageSchema body =
               Inl ''Message must have either recipientId or groupId, not both''"
    by (auto simp: insertMessageSchema_def)
  then show "postMessages st clients newId now userId body =
        (st, Error 400 ''Message must have either recipientId or groupId, not both'', [])"
    by (simp add: postMessages_def)
next
  fix m
  assume new: "m \<in> snd ` set (messages (fst (postMessages st clients newId now userId body)))"
    and old: "m \<notin> snd ` set (messages st)"
  have ok: "insertMessageSchema body = Inr body"
    and x: "truthy (im_recipientId body) \<noteq> truthy (im_groupId body)"
    using new old unfolding postMessages_storage
    by (auto simp: insertMessageSchema_def split: if_splits)
  have "m \<in> snd ` set (AList.update newId (snd (createMessage st newId now userId body)) (messages st))"
    using new unfolding postMessages_storage ok by (simp add: createMessage_def Let_def)
  then have m: "m = snd (createMessage st newId now userId body)"
    using old set_update_subset[of newId "snd (createMessage st newId now userId body)" "messages st"]
    by force
  show "(recipientId m = None) \<noteq> (groupId m = None)"
    using x unfolding m by (simp add: createMessage_def Let_def or_null_None)
  show "truthy (recipientId m) \<noteq> truthy (groupId m)"
    using x unfolding m by (simp add: createMessage_def Let_def)
qed

theorem C6_invalid_addressing_rejected_witness:
  "postMessages ex_storage ex_clients ''m9'' 40 ''u1'' ex_both =
     (ex_storage, Error 400 ''Message must have either recipientId or groupId, not both'', []) \<and>
   (recipientId (snd (createMessage ex_storage ''m9'' 40 ''u1'' ex_to_bob)) = None) \<noteq>
   (groupId (snd (createMessage ex_storage ''m9'' 40 ''u1'' ex_to_bob)) = None)"
proof -
  let ?m = "snd (createMessage ex_storage ''m9'' 40 ''u1'' ex_to_bob)"
  have h: "truthy (im_recipientId ex_both) = truthy (im_groupId ex_both)"
    by (simp add: ex_both_def truthy_def)
  have ok: "insertMessageSchema ex_to_bob = Inr ex_to_bob"
    by (simp add: insertMessageSchema_def ex_to_bob_def truthy_def)
  have new: "?m \<in> snd ` set (messages (fst (postMessages ex_storage ex_clients ''m9'' 40 ''u1'' ex_to_bob)))"
    by (simp add: postMessages_storage ok ex_createMessage)
  have old: "?m \<notin> snd ` set (messages ex_storage)"
    unfolding ex_createMessage by (simp add: ex_defs)
  have a: "postMessages ex_storage ex_clients ''m9'' 40 ''u1'' ex_both =
     (ex_storage, Error 400 ''Message must have either recipientId or groupId, not both'', [])"
    by (rule C6_invalid_addressing_rejected[THEN conjunct1, THEN mp, OF h])
  have b: "(recipientId ?m = None) \<noteq> (groupId ?m = None)"
    by (rule C6_invalid_addressing_rejected[THEN conjunct2, THEN spec, THEN mp, THEN mp,
          OF new old, THEN conjunct1])
  from a b show ?thesis by (rule conjI)
qed

text \<open>
  C7 (as the claim states it, refuted). The username \<open>bob\<close> is taken, and a signup for it
  with a password of five characters is answered with the password error of the schema,
  not with \<open>Username already taken\<close>.
\<close>

theorem C7_short_password_counterexample:
  "getUserByUsername ex_storage (iu_username ex_short) = Some ex_bob \<and>
   postSignup ex_storage ''u9'' ''hash-x'' ex_short =
     (ex_storage, Error 400 ''Password must be at least 6 characters'') \<and>
   \<not> isDuplicateUsername (snd (postSignup ex_storage ''u9'' ''hash-x'' ex_short))"
  by (simp add: postSignup_def insertUserSchema_def getUserByUsername_def isDuplicateUsername_def
        ex_short_def ex_defs)

text \<open>
  C7 (amended). A signup whose username is already in the registry leaves the registry as
  it was and is answered with an error: \<open>Username already taken\<close> when the password has at
  least six characters, the password error of the schema otherwise. Usernames are compared
  with \<open>===\<close>, so uniqueness is case-sensitive, and it holds after every run of requests
  (signups, new groups, new messages), from the empty store or from any store where it
  held before.
\<close>

theorem C7_duplicate_username_rejected:
  "(getUserByUsername st (iu_username body) \<noteq> None \<longrightarrow>
      fst (postSignup st newId hash body) = st \<and>
      (\<exists>e. snd (postSignup st newId hash body) = Error 400 e) \<and>
      (6 \<le> length (password body) \<longrightarrow>
         snd (postSignup st newId hash body) = Error 400 ''Username already taken'') \<and>
      (length (password body) < 6 \<longrightarrow>
         snd (postSignup st newId hash body) =
           Error 400 ''Password must be at least 6 characters'')) \<and>
   (usernames_unique st \<longrightarrow> usernames_unique (run st reqs)) \<and>
   usernames_unique (run newStorage reqs)"
proof (intro conjI impI)
  assume t: "getUserByUsername st (iu_username body) \<noteq> None"
  then show "fst (postSignup st newId hash body) = st"
    by (auto simp: postSignup_def insertUserSchema_def)
  from t show "\<exists>e. snd (postSignup st newId hash body) = Error 400 e"
    by (auto simp: postSignup_def insertUserSchema_def)
  {
    assume "6 \<le> length (password body)"
    with t show "snd (postSignup st newId hash body) = Error 400 ''Username already taken''"
      by (auto simp: postSignup_def insertUserSchema_def)
  }
  {
    assume "length (password body) < 6"
    then show "snd (postSignup st newId hash body) =
                 Error 400 ''Password must be at least 6 characters''"
      by (simp add: postSignup_def insertUserSchema_def)
  }
next
  assume "usernames_unique st"
  then show "usernames_unique (run st reqs)" by (rule run_unique)
next
  have "usernames_unique newStorage" by (simp add: usernames_unique_def newStorage_def)
  then show "usernames_unique (run newStorage reqs)" by (rule run_unique)
qed

theorem C7_duplicate_username_rejected_witness:
  "postSignup ex_storage ''u9'' ''hash-x'' \<lparr>iu_username = ''bob'', password = ''secret9''\<rparr> =
     (ex_storage, Error 400 ''Username already taken'') \<and>
   snd (postSignup ex_storage ''u9'' ''hash-x'' ex_short) =
     Error 400 ''Password must be at least 6 characters'' \<and>
   usernames_unique (run ex_storage ex_requests) \<and>
   map (\<lambda>kv. username (snd kv)) (users (run newStorage ex_requests)) = [''Alice'', ''bob'', ''alice'']"
proof -
  let ?b = "\<lparr>iu_username = ''bob'', password = ''secret9''\<rparr>"
  have t: "getUserByUsername ex_storage (iu_username ?b) \<noteq> None"
    by (simp add: getUserByUsername_def ex_defs)
  have l: "6 \<le> length (password ?b)" by simp
  have t': "getUserByUsername ex_storage (iu_username ex_short) \<noteq> None"
    by (simp add: getUserByUsername_def ex_defs ex_short_def)
  have l': "length (password ex_short) < 6" by (simp add: ex_short_def)
  have u: "usernames_unique ex_storage" by (simp add: usernames_unique_def ex_defs)
  note inst = C7_duplicate_username_rejected[of ex_storage "?b" "''u9''" "''hash-x''" ex_requests]
  have f: "fst (postSignup ex_storage ''u9'' ''hash-x'' ?b) = ex_storage"
    by (rule inst[THEN conjunct1, THEN mp, OF t, THEN conjunct1])
  have s: "snd (postSignup ex_storage ''u9'' ''hash-x'' ?b) = Error 400 ''Username already taken''"
    by (rule inst[THEN conjunct1, THEN mp, OF t, THEN conjunct2, THEN conjunct2, THEN conjunct1,
          THEN mp, OF l])
  have a: "postSignup ex_storage ''u9'' ''hash-x'' ?b =
     (ex_storage, Error 400 ''Username already taken'')"
    by (rule prod_eqI) (simp_all only: f s fst_conv snd_conv)
  have p: "snd (postSignup ex_storage ''u9'' ''hash-x'' ex_short) =
     Error 400 ''Password must be at least 6 characters''"
    by (rule C7_duplicate_username_rejected[of ex_storage ex_short "''u9''" "''hash-x''",
          THEN conjunct1, THEN mp, OF t', THEN conjunct2, THEN conjunct2, THEN conjunct2,
          THEN mp, OF l'])
  have b: "usernames_unique (run ex_storage ex_requests)"
    by (rule inst[THEN conjunct2, THEN conjunct1, THEN mp, OF u])
  have c: "map (\<lambda>kv. username (snd kv)) (users (run newStorage ex_requests)) = [''Alice'', ''bob'', ''alice'']"
    by (simp add: ex_requests_def run_def newStorage_def postSignup_def insertUserSchema_def
          postGroups_def insertGroupSchema_def createGroup_def getGroupWithMembers_def
          getUserByUsername_def createUser_def Let_def)
  from a p b c show ?thesis by (intro conjI)
qed

text \<open>
  C8 (the code at a missing, empty or blank query). \<open>searchUsers q\<close> returns, in registry
  order, exactly the users whose username contains \<open>q\<close> without regard to case, and for the
  empty query these are all users; the search route answers any query that is not blank
  with the users \<open>searchUsers\<close> finds, each without \<open>passwordHash\<close>. But for a missing, empty
  or blank query the route never reaches \<open>searchUsers\<close>: it calls \<open>storage.getAllUsers()\<close>,
  which does not exist, and answers 500 \<open>Failed to search users\<close> instead of all users.
\<close>

theorem C8_search_users:
  "searchUsers st q = filter (\<lambda>u. contains_ci (username u) q) (map snd (users st)) \<and>
   searchUsers st [] = map snd (users st) \<and>
   getUsersSearch st None = Error 500 ''Failed to search users'' \<and>
   getUsersSearch st (Some []) = Error 500 ''Failed to search users'' \<and>
   (blank q \<longrightarrow> getUsersSearch st (Some q) = Error 500 ''Failed to search users'') \<and>
   (\<not> blank q \<longrightarrow>
      getUsersSearch st (Some q) =
        Json (JArr (map (\<lambda>u. JObj (sanitizeUser u))
                (filter (\<lambda>u. contains_ci (username u) q) (map snd (users st))))))"
proof (intro conjI impI)
  show "searchUsers st q = filter (\<lambda>u. contains_ci (username u) q) (map snd (users st))"
    by (rule searchUsers_contains_ci)
  show "searchUsers st [] = map snd (users st)"
    by (simp add: searchUsers_def toLowerCase_def Let_def includes_str_Nil)
  show "getUsersSearch st None = Error 500 ''Failed to search users''"
    by (simp add: getUsersSearch_def allUsersResponse_def getAllUsers_def)
  show "getUsersSearch st (Some []) = Error 500 ''Failed to search users''"
    by (simp add: getUsersSearch_def allUsersResponse_def getAllUsers_def)
  show "getUsersSearch st (Some q) = Error 500 ''Failed to search users''" if "blank q"
    using that
    by (simp add: getUsersSearch_def allUsersResponse_def getAllUsers_def trim_Nil_blank)
  show "getUsersSearch st (Some q) =
        Json (JArr (map (\<lambda>u. JObj (sanitizeUser u))
                (filter (\<lambda>u. contains_ci (username u) q) (map snd (users st)))))" if "\<not> blank q"
  proof -
    have "q \<noteq> []" using that by (auto simp: blank_def)
    then show ?thesis using that
      by (simp add: getUsersSearch_def trim_Nil_blank searchUsers_contains_ci)
  qed
qed

theorem C8_search_users_witness:
  "getUsersSearch ex_storage (Some ''  '') = Error 500 ''Failed to search users'' \<and>
   filter (\<lambda>u. contains_ci (username u) ''ali'') [ex_alice, ex_bob, ex_carol, ex_dan] =
     [ex_alice, ex_carol, ex_dan] \<and>
   getUsersSearch ex_storage (Some ''ali'') =
     Json (JArr [JObj [(''id'', JStr ''u1''), (''username'', JStr ''Alice'')],
                 JObj [(''id'', JStr ''u3''), (''username'', JStr ''MALI'')],
                 JObj [(''id'', JStr ''u4''), (''username'', JStr ''alias'')]])"
proof -
  note inst = C8_search_users[of ex_storage "''ali''"]
  have f: "filter (\<lambda>u. contains_ci (username u) ''ali'') [ex_alice, ex_bob, ex_carol, ex_dan] =
             [ex_alice, ex_carol, ex_dan]"
    using inst[THEN conjunct1] unfolding ex_search ex_all_users by (rule sym)
  have nb: "\<not> blank ''ali''" by (simp add: blank_def is_space_def)
  have b: "blank ''  ''" by (simp add: blank_def is_space_def)
  have "getUsersSearch ex_storage (Some ''ali'') =
          Json (JArr (map (\<lambda>u. JObj (sanitizeUser u)) [ex_alice, ex_carol, ex_dan]))"
    using inst[THEN conjunct2, THEN conjunct2, THEN conjunct2, THEN conjunct2, THEN conjunct2,
            THEN mp, OF nb]
    unfolding ex_all_users f .
  then have g: "getUsersSearch ex_storage (Some ''ali'') =
     Json (JArr [JObj [(''id'', JStr ''u1''), (''username'', JStr ''Alice'')],
                 JObj [(''id'', JStr ''u3''), (''username'', JStr ''MALI'')],
                 JObj [(''id'', JStr ''u4''), (''username'', JStr ''alias'')]])"
    by (simp add: sanitizeUser_def userObj_def ex_defs)
  have h: "getUsersSearch ex_storage (Some ''  '') = Error 500 ''Failed to search users''"
    by (rule C8_search_users[of ex_storage "''  ''", THEN conjunct2, THEN conjunct2,
          THEN conjunct2, THEN conjunct2, THEN conjunct1, THEN mp, OF b])
  from h f g show ?thesis by (intro conjI)
qed

text \<open>
  C9. In the payload that \<open>POST /api/messages\<close> returns and broadcasts, the key
  \<open>passwordHash\<close> occurs nowhere: not in the embedded sender, not in the embedded
  recipient, not in any member of the embedded group. The embedded sender is the sender's
  record reduced to \<open>id\<close> and \<open>username\<close>.
\<close>

theorem C9_payload_has_no_password_hash:
  assumes "postMessages st clients newId now userId body = (st', Json p, sent)"
  shows "\<not> mentions ''passwordHash'' p \<and>
         (\<forall>d \<in> set sent. \<not> mentions ''passwordHash'' (snd d)) \<and>
         (\<exists>s. getUser st' userId = Some s \<and>
              senderOf p = Some (JObj [(''id'', JStr (user_id s)), (''username'', JStr (username s))]))"
proof -
  let ?msg = "snd (createMessage st newId now userId body)"
  have e: "enrichMessage st' ?msg = Inr p" and b: "sent = broadcast clients p"
    using postMessages_Json[OF assms] by blast+
  have sid: "senderId ?msg = userId" by (simp add: createMessage_def Let_def)
  have nm: "\<not> mentions ''passwordHash'' p" using e by (rule enrichMessage_no_hash)
  have "\<forall>d \<in> set sent. snd d = p" unfolding b broadcast_def by auto
  with nm enrichMessage_sender[OF e] sid show ?thesis by (auto simp: sanitizeUser_eq)
qed


theorem C9_payload_has_no_password_hash_witness:
  "\<not> mentions ''passwordHash'' (JObj
        [(''id'', JStr ''m9''), (''senderId'', JStr ''u1''),
         (''recipientId'', JNull), (''groupId'', JStr ''g1''),
         (''content'', JStr ''all hands''), (''createdAt'', JNum 40),
         (''sender'', JObj [(''id'', JStr ''u1''), (''username'', JStr ''Alice'')]),
         (''group'', JObj
            [(''id'', JStr ''g1''), (''name'', JStr ''team''),
             (''createdBy'', JStr ''u1''), (''createdAt'', JNum 1),
             (''members'', JArr
                [JObj [(''id'', JStr ''u1''), (''username'', JStr ''Alice'')],
                 JObj [(''id'', JStr ''u3''), (''username'', JStr ''MALI'')]]),
             (''memberCount'', JNum 2)])]) \<and>
   mentions ''passwordHash'' (JObj (userObj ex_alice))"
proof -
  have a: "mentions ''passwordHash'' (JObj (userObj ex_alice))"
    by (simp add: userObj_def)
  from C9_payload_has_no_password_hash[OF ex_post_to_team, THEN conjunct1] a
  show ?thesis by (rule conjI)
qed

text \<open>
  C10. A stored message between two users is returned by \<open>getMessagesBetweenUsers\<close>
  exactly when both its sender and its recipient have a user record, and a stored message of
  a group is returned by \<open>getGroupMessages\<close> exactly when its sender has a user record and
  the group has a group record. A message that fails the test stays in the log (both reads
  leave the store alone) and is left out of the result without any error.
\<close>

theorem C10_unresolvable_messages_omitted:
  assumes "m \<in> snd ` set (messages st)"
  shows "(between u1 u2 m \<longrightarrow>
           (m \<in> mwu_message ` set (getMessagesBetweenUsers st u1 u2)) =
           (getUser st (senderId m) \<noteq> None \<and> Option.bind (recipientId m) (getUser st) \<noteq> None)) \<and>
         (groupId m = Some g \<longrightarrow>
           (m \<in> mwu_message ` set (getGroupMessages st g)) =
           (getUser st (senderId m) \<noteq> None \<and> getGroup st g \<noteq> None))"
proof (intro conjI impI)
  have a: "mwu_message ` set (getMessagesBetweenUsers st u1 u2) =
           set (map mwu_message (getMessagesBetweenUsers st u1 u2))" by simp
  show "(m \<in> mwu_message ` set (getMessagesBetweenUsers st u1 u2)) =
        (getUser st (senderId m) \<noteq> None \<and> Option.bind (recipientId m) (getUser st) \<noteq> None)"
    if "between u1 u2 m"
    unfolding a messages_of_between using assms that by auto
  have b: "mwu_message ` set (getGroupMessages st g) =
           set (map mwu_message (getGroupMessages st g))" by simp
  show "(m \<in> mwu_message ` set (getGroupMessages st g)) =
        (getUser st (senderId m) \<noteq> None \<and> getGroup st g \<noteq> None)"
    if "groupId m = Some g"
    unfolding b messages_of_group using assms that by auto
qed

theorem C10_unresolvable_messages_omitted_witness:
  "ex_lost \<in> snd ` set (messages ex_storage) \<and>
   ex_lost \<notin> mwu_message ` set (getMessagesBetweenUsers ex_storage ''u1'' ''ghost'') \<and>
   ex_stray \<in> snd ` set (messages ex_storage) \<and>
   ex_stray \<notin> mwu_message ` set (getGroupMessages ex_storage ''g1'') \<and>
   ex_team_msg \<in> mwu_message ` set (getGroupMessages ex_storage ''g1'')"
proof -
  have l: "ex_lost \<in> snd ` set (messages ex_storage)"
    and s: "ex_stray \<in> snd ` set (messages ex_storage)"
    and t: "ex_team_msg \<in> snd ` set (messages ex_storage)"
    by (simp_all add: ex_storage_def)
  have bl: "between ''u1'' ''ghost'' ex_lost" by (simp add: between_def ex_lost_def)
  have rl: "Option.bind (recipientId ex_lost) (getUser ex_storage) = None"
    by (simp add: ex_lost_def getUser_def ex_storage_def)
  have gs: "groupId ex_stray = Some ''g1''" and ss: "getUser ex_storage (senderId ex_stray) = None"
    by (simp_all add: ex_stray_def getUser_def ex_storage_def)
  have gt: "groupId ex_team_msg = Some ''g1''"
    and st: "getUser ex_storage (senderId ex_team_msg) \<noteq> None"
    and gg: "getGroup ex_storage ''g1'' \<noteq> None"
    by (simp_all add: ex_team_msg_def getUser_def getGroup_def ex_storage_def)
  have a: "ex_lost \<notin> mwu_message ` set (getMessagesBetweenUsers ex_storage ''u1'' ''ghost'')"
    unfolding C10_unresolvable_messages_omitted[OF l, THEN conjunct1, THEN mp, OF bl]
    by (simp only: rl simp_thms)
  have b: "ex_stray \<notin> mwu_message ` set (getGroupMessages ex_storage ''g1'')"
    unfolding C10_unresolvable_messages_omitted[OF s, THEN conjunct2, THEN mp, OF gs]
    by (simp only: ss simp_thms)
  have c: "ex_team_msg \<in> mwu_message ` set (getGroupMessages ex_storage ''g1'')"
    unfolding C10_unresolvable_messages_omitted[OF t, THEN conjunct2, THEN mp, OF gt]
    using st gg by (rule conjI)
  from l a s b c show ?thesis by (intro conjI)
qed


end
